theory Spec2Isabelle
  imports Complex_Main
begin

section \<open>The batch loader of etl.py\<close>

text \<open>
  The program is the class \<open>load_data_to_neo4j\<close> of \<open>src/etl.py\<close> and its
  \<open>__main__\<close> block. Its collaborators (pandas, the Neo4j driver, the YAML reader) are
  libraries outside the repository. They are modelled as an environment \<open>env\<close>, which
  fixes what each library call answers, and a world \<open>world\<close>, which records what the
  library calls did: lines printed, sessions opened and closed, the payload of every
  \<open>session.write_transaction\<close> call, nodes created and committed, calls of
  \<open>driver.close\<close>. Every method takes the world and returns the new one together
  with its Python result, \<open>Inl e\<close> when it raises \<open>e\<close>.
\<close>

subsection \<open>Data\<close>

text \<open>
  Exceptions that \<open>except Exception\<close> catches. \<open>load_data\<close> tells
  \<open>FileNotFoundError\<close> and \<open>pd.errors.ParserError\<close> from the rest.
\<close>

datatype exn =
    FileNotFoundError string
  | ParserError string
  | AttributeError string
  | OtherException string

fun str_exn :: "exn \<Rightarrow> string" where
  "str_exn (FileNotFoundError s) = s"
| "str_exn (ParserError s) = s"
| "str_exn (AttributeError s) = s"
| "str_exn (OtherException s) = s"

text \<open>The lines the program prints, one constructor per \<open>print\<close> of the source.\<close>

datatype message =
    Driver_initialized
  | Driver_init_failed exn
  | Csv_loaded
  | File_not_found
  | Parse_error
  | Unexpected_error exn
  | Create_failed exn
  | All_loaded
  | Load_failed exn
  | Closed_ok
  | Close_failed exn
  | Run_failed exn

fun render :: "message \<Rightarrow> string" where
  "render Driver_initialized = ''Neo4j driver initialized successfully.''"
| "render (Driver_init_failed e) = ''Failed to initialize Neo4j driver: '' @ str_exn e"
| "render Csv_loaded = ''CSV data loaded successfully.''"
| "render File_not_found = ''File not found. Please check the file path.''"
| "render Parse_error = ''Error parsing the CSV file.''"
| "render (Unexpected_error e) = ''An unexpected error occurred: '' @ str_exn e"
| "render (Create_failed e) = ''Failed to create product nodes: '' @ str_exn e"
| "render All_loaded = ''All data have been loaded into Neo4j.''"
| "render (Load_failed e) = ''Failed to load data to Neo4j: '' @ str_exn e"
| "render Closed_ok = ''Neo4j connection closed successfully.''"
| "render (Close_failed e) = ''Failed to close Neo4j connection: '' @ str_exn e"
| "render (Run_failed e) = ''Failed to run loading process: '' @ str_exn e"

text \<open>
  A row: the column labels with their values, in column order. \<open>row.to_dict()\<close> is
  the dictionary from label to value; a label that occurs twice keeps its last value.
\<close>

type_synonym 'v row = "(string \<times> 'v) list"

type_synonym 'v product = "string \<rightharpoonup> 'v"

type_synonym 'v batch = "'v product list"

definition to_dict :: "'v row \<Rightarrow> 'v product" where
  "to_dict row = foldl (\<lambda>d (c, v). d(c \<mapsto> v)) Map.empty row"

text \<open>
  The DataFrame that \<open>pd.read_csv\<close> returns is the list of its rows. A cell is an
  integer, a float (the real it denotes; rounding is not modelled) or a string, and
  every column has one of the dtypes \<open>int64\<close>, \<open>float64\<close>, \<open>object\<close>.
  \<open>data.iterrows()\<close> yields each row as a Series, which has a single dtype, the
  common dtype of the frame's columns: \<open>object\<close> when some column holds strings,
  else \<open>float64\<close> when some column holds floats, else \<open>int64\<close>. Under
  \<open>float64\<close> the integers of the row become floats.
\<close>

datatype cell = Int_cell int | Float_cell real | Str_cell string

datatype dtype = Int64 | Float64 | Object

fun dtype_of :: "cell \<Rightarrow> dtype" where
  "dtype_of (Int_cell i) = Int64"
| "dtype_of (Float_cell x) = Float64"
| "dtype_of (Str_cell s) = Object"

definition common_dtype :: "cell row list \<Rightarrow> dtype" where
  "common_dtype data =
     (let ds = map (\<lambda>(c, v). dtype_of v) (concat data)
      in if Object \<in> set ds then Object else if Float64 \<in> set ds then Float64 else Int64)"

fun as_dtype :: "dtype \<Rightarrow> cell \<Rightarrow> cell" where
  "as_dtype Float64 (Int_cell i) = Float_cell (of_int i)"
| "as_dtype d v = v"

definition row_series :: "cell row list \<Rightarrow> cell row \<Rightarrow> cell row" where
  "row_series data row = map (\<lambda>(c, v). (c, as_dtype (common_dtype data) v)) row"

definition iterrows :: "cell row list \<Rightarrow> cell row list" where
  "iterrows data = map (row_series data) data"

text \<open>A node of the store: its label and its properties.\<close>

record 'v node =
  label :: string
  props :: "'v product"

text \<open>
  What one transaction of the store will do: whether opening it raises, whether
  \<open>tx.run\<close> raises, whether the commit raises. The transaction handle \<open>tx\<close> handed to
  the transaction function is this script.
\<close>

record tx =
  begin_fault :: "exn option"
  run_fault :: "exn option"
  commit_fault :: "exn option"

record 'v env =
  read_config :: "exn + (string \<times> string \<times> string \<times> string)"
  driver_fault :: "exn option"
  read_csv :: "string \<Rightarrow> exn + 'v row list"
  session_fault :: "exn option"
  tx_faults :: "nat \<Rightarrow> tx"
  close_fault :: "exn option"

record 'v world =
  stdout :: "message list"
  sessions_opened :: nat
  sessions_closed :: nat
  flushed :: "'v batch list"
  pending :: "'v node list"
  nodes :: "'v node list"
  driver_close_calls :: nat

definition print :: "message \<Rightarrow> 'v world \<Rightarrow> 'v world" where
  "print m w = w\<lparr>stdout := stdout w @ [m]\<rparr>"

text \<open>
  The object \<open>self\<close>: which of its two attributes \<open>__init__\<close> has set.
\<close>

record loader =
  has_driver :: bool
  FILE_PATH :: "string option"

definition no_attribute :: "string \<Rightarrow> exn" where
  "no_attribute a =
     AttributeError (''load_data_to_neo4j object has no attribute '' @ a)"

subsection \<open>The library calls\<close>

text \<open>
  The store reads the statement it is sent. Statements of the shape
  \<open>UNWIND $param AS x CREATE (n:Label) SET n = x\<close>, the words separated by white
  space, are understood: for each element of the list bound to the parameter, one node
  with that label whose properties are that element. Any other text is a syntax
  error, and a parameter that was not passed is an error too.
\<close>

definition is_space :: "char \<Rightarrow> bool" where
  "is_space c = (c = CHR '' '' \<or> c = CHR 0x0A \<or> c = CHR 0x09 \<or> c = CHR 0x0D)"

fun split_words :: "string \<Rightarrow> string \<Rightarrow> string list" where
  "split_words cur [] = (if cur = [] then [] else [cur])"
| "split_words cur (c # cs) =
     (if is_space c then (if cur = [] then split_words [] cs else cur # split_words [] cs)
      else split_words (cur @ [c]) cs)"

definition node_pattern :: "string \<Rightarrow> (string \<times> string) option" where
  "node_pattern pat =
     (case pat of
        [] \<Rightarrow> None
      | c # rest \<Rightarrow>
          if c = CHR ''('' \<and> rest \<noteq> [] \<and> last rest = CHR '')''
          then (let inner = butlast rest;
                    n = takeWhile (\<lambda>x. x \<noteq> CHR '':'') inner
                in case dropWhile (\<lambda>x. x \<noteq> CHR '':'') inner of
                     [] \<Rightarrow> None
                   | colon # lab \<Rightarrow> if n \<noteq> [] \<and> lab \<noteq> [] then Some (n, lab) else None)
          else None)"

definition parse_statement :: "string \<Rightarrow> (string \<times> string) option" where
  "parse_statement q =
     (case split_words [] q of
        [k1, par, k2, v, k3, pat, k4, n', eq, v'] \<Rightarrow>
          (case (par, node_pattern pat) of
             (d # pname, Some (n, lab)) \<Rightarrow>
               if k1 = ''UNWIND'' \<and> d = CHR ''$'' \<and> pname \<noteq> [] \<and> k2 = ''AS'' \<and>
                  k3 = ''CREATE'' \<and> k4 = ''SET'' \<and> n' = n \<and> eq = ''='' \<and> v' = v
               then Some (pname, lab) else None
           | _ \<Rightarrow> None)
      | _ \<Rightarrow> None)"

definition cypher :: "string \<Rightarrow> (string \<times> 'v batch) list \<Rightarrow> exn + 'v node list" where
  "cypher q params =
     (case parse_statement q of
        None \<Rightarrow> Inl (OtherException ''CypherSyntaxError'')
      | Some (pname, lab) \<Rightarrow>
          (case map_of params pname of
             None \<Rightarrow> Inl (OtherException ''ParameterMissing'')
           | Some elems \<Rightarrow> Inr (map (\<lambda>p. \<lparr>label = lab, props = p\<rparr>) elems)))"

text \<open>
  \<open>tx.run(q, **params)\<close>: unless the call fails by the script of the transaction,
  the store runs the statement; the nodes it creates are pending until the transaction
  commits.
\<close>

definition tx_run ::
  "tx \<Rightarrow> string \<Rightarrow> (string \<times> 'v batch) list \<Rightarrow> 'v world \<Rightarrow> (exn + unit) \<times> 'v world" where
  "tx_run t q params w =
     (case run_fault t of
        Some e \<Rightarrow> (Inl e, w)
      | None \<Rightarrow>
          (case cypher q params of
             Inl e \<Rightarrow> (Inl e, w)
           | Inr created \<Rightarrow> (Inr (), w\<lparr>pending := pending w @ created\<rparr>)))"

text \<open>
  \<open>session.write_transaction(fn, payload)\<close>: the call is recorded with its payload;
  the transaction is opened, \<open>fn(tx, payload)\<close> runs, and the transaction commits when
  \<open>fn\<close> returns. An exception from \<open>fn\<close> or from the commit rolls the pending
  nodes back and is raised to the caller. The script of the call is the entry of
  \<open>tx_faults\<close> at the number of calls made before.
\<close>

definition write_transaction ::
  "'v env \<Rightarrow> (tx \<Rightarrow> 'v batch \<Rightarrow> 'v world \<Rightarrow> (exn + unit) \<times> 'v world) \<Rightarrow> 'v batch \<Rightarrow> 'v world
     \<Rightarrow> (exn + unit) \<times> 'v world" where
  "write_transaction env fn payload w =
     (let t = tx_faults env (length (flushed w));
          w1 = w\<lparr>flushed := flushed w @ [payload]\<rparr>
      in case begin_fault t of
           Some e \<Rightarrow> (Inl e, w1)
         | None \<Rightarrow>
            (case fn t payload w1 of
               (Inl e, w2) \<Rightarrow> (Inl e, w2\<lparr>pending := []\<rparr>)
             | (Inr u, w2) \<Rightarrow>
                (case commit_fault t of
                   Some e \<Rightarrow> (Inl e, w2\<lparr>pending := []\<rparr>)
                 | None \<Rightarrow> (Inr (), w2\<lparr>nodes := nodes w2 @ pending w2, pending := []\<rparr>))))"

subsection \<open>The methods of the class\<close>

definition init :: "'v env \<Rightarrow> string \<Rightarrow> string \<Rightarrow> string \<Rightarrow> string \<Rightarrow> 'v world \<Rightarrow> loader \<times> 'v world" where
  "init env uri username password file_path w =
     (case driver_fault env of
        None \<Rightarrow> (\<lparr>has_driver = True, FILE_PATH = Some file_path\<rparr>, print Driver_initialized w)
      | Some e \<Rightarrow> (\<lparr>has_driver = False, FILE_PATH = None\<rparr>, print (Driver_init_failed e) w))"

fun load_data_handler :: "exn \<Rightarrow> message" where
  "load_data_handler (FileNotFoundError s) = File_not_found"
| "load_data_handler (ParserError s) = Parse_error"
| "load_data_handler e = Unexpected_error e"

definition load_data :: "'v env \<Rightarrow> loader \<Rightarrow> 'v world \<Rightarrow> (exn + 'v row list option) \<times> 'v world" where
  "load_data env self w =
     (case (case FILE_PATH self of
              None \<Rightarrow> Inl (no_attribute ''FILE_PATH'')
            | Some path \<Rightarrow> read_csv env path) of
        Inr data \<Rightarrow> (Inr (Some data), print Csv_loaded w)
      | Inl e \<Rightarrow> (Inr None, print (load_data_handler e) w))"

text \<open>The string literal that \<open>create_product_nodes\<close> binds to \<open>query\<close>.\<close>

definition query :: string where
  "query = CHR 0x0A # ''            UNWIND $products AS product'' @
           CHR 0x0A # ''            CREATE (p:Product) SET p = product'' @
           CHR 0x0A # ''            ''"

definition create_product_nodes :: "tx \<Rightarrow> 'v batch \<Rightarrow> 'v world \<Rightarrow> (exn + unit) \<times> 'v world" where
  "create_product_nodes t products w =
     (case tx_run t query [(''products'', products)] w of
        (Inr u, w') \<Rightarrow> (Inr (), w')
      | (Inl e, w') \<Rightarrow> (Inr (), print (Create_failed e) w'))"

text \<open>
  The \<open>for\<close> loop of \<open>load_csv_to_neo4j\<close>, from the rows still to come and the
  accumulator \<open>batch\<close>. It returns the accumulator the loop ends with, or the
  exception that left it.
\<close>

fun batch_loop :: "'v env \<Rightarrow> int \<Rightarrow> 'v row list \<Rightarrow> 'v batch \<Rightarrow> 'v world \<Rightarrow> (exn + 'v batch) \<times> 'v world" where
  "batch_loop env batch_size [] batch w = (Inr batch, w)"
| "batch_loop env batch_size (row # rows) batch w =
     (let batch' = batch @ [to_dict row]
      in if int (length batch') \<ge> batch_size
         then (case write_transaction env create_product_nodes batch' w of
                 (Inl e, w') \<Rightarrow> (Inl e, w')
               | (Inr u, w') \<Rightarrow> batch_loop env batch_size rows [] w')
         else batch_loop env batch_size rows batch' w)"

text \<open>
  The body of the \<open>with\<close> statement: the loop over \<open>data.iterrows()\<close>, the last
  flush, the final line.
\<close>

definition session_body :: "cell env \<Rightarrow> cell row list \<Rightarrow> int \<Rightarrow> cell world \<Rightarrow> (exn + unit) \<times> cell world" where
  "session_body env data batch_size w =
     (case batch_loop env batch_size (iterrows data) [] w of
        (Inl e, w') \<Rightarrow> (Inl e, w')
      | (Inr batch, w') \<Rightarrow>
          (if batch \<noteq> []
           then (case write_transaction env create_product_nodes batch w' of
                   (Inl e, w'') \<Rightarrow> (Inl e, w'')
                 | (Inr u, w'') \<Rightarrow> (Inr (), print All_loaded w''))
           else (Inr (), print All_loaded w')))"

definition close_session :: "'v world \<Rightarrow> 'v world" where
  "close_session w = w\<lparr>sessions_closed := Suc (sessions_closed w)\<rparr>"

definition load_csv_to_neo4j :: "cell env \<Rightarrow> loader \<Rightarrow> cell row list \<Rightarrow> int \<Rightarrow> cell world \<Rightarrow> (exn + unit) \<times> cell world" where
  "load_csv_to_neo4j env self data batch_size w =
     (if \<not> has_driver self then (Inr (), print (Load_failed (no_attribute ''driver'')) w)
      else case session_fault env of
        Some e \<Rightarrow> (Inr (), print (Load_failed e) w)
      | None \<Rightarrow>
          (case session_body env data batch_size (w\<lparr>sessions_opened := Suc (sessions_opened w)\<rparr>) of
             (Inl e, w') \<Rightarrow> (Inr (), print (Load_failed e) (close_session w'))
           | (Inr u, w') \<Rightarrow> (Inr (), close_session w')))"

definition close :: "'v env \<Rightarrow> loader \<Rightarrow> 'v world \<Rightarrow> (exn + unit) \<times> 'v world" where
  "close env self w =
     (if \<not> has_driver self then (Inr (), print (Close_failed (no_attribute ''driver'')) w)
      else (let w1 = w\<lparr>driver_close_calls := Suc (driver_close_calls w)\<rparr>
            in case close_fault env of
                 Some e \<Rightarrow> (Inr (), print (Close_failed e) w1)
               | None \<Rightarrow> (Inr (), print Closed_ok w1)))"

definition default_batch_size :: int where
  "default_batch_size = 1000"

definition run :: "cell env \<Rightarrow> loader \<Rightarrow> cell world \<Rightarrow> (exn + unit) \<times> cell world" where
  "run env self w =
     (case load_data env self w of
        (Inl e, w1) \<Rightarrow> (Inr (), print (Run_failed e) w1)
      | (Inr None, w1) \<Rightarrow> (Inr (), w1)
      | (Inr (Some data), w1) \<Rightarrow>
          (case load_csv_to_neo4j env self data default_batch_size w1 of
             (Inl e, w2) \<Rightarrow> (Inr (), print (Run_failed e) w2)
           | (Inr u, w2) \<Rightarrow> (Inr (), w2)))"

text \<open>
  The \<open>__main__\<close> block. Reading \<open>config.yaml\<close> happens outside any \<open>try\<close>: when
  it raises, the process ends before a loader exists.
\<close>

definition main :: "cell env \<Rightarrow> cell world \<Rightarrow> (exn + unit) \<times> cell world" where
  "main env w =
     (case read_config env of
        Inl e \<Rightarrow> (Inl e, w)
      | Inr (uri, username, password, file_path) \<Rightarrow>
          (case init env uri username password file_path w of
             (ldr, w1) \<Rightarrow>
               (case run env ldr w1 of
                  (Inl e, w2) \<Rightarrow> (Inl e, w2)
                | (Inr u, w2) \<Rightarrow> close env ldr w2)))"

definition world0 :: "'v world" where
  "world0 = \<lparr>stdout = [], sessions_opened = 0, sessions_closed = 0, flushed = [],
             pending = [], nodes = [], driver_close_calls = 0\<rparr>"

subsection \<open>Notions used by the statements\<close>

text \<open>The node expected for a record: labelled \<open>Product\<close>, its properties the record.\<close>

definition mk_node :: "'v product \<Rightarrow> 'v node" where
  "mk_node p = \<lparr>label = ''Product'', props = p\<rparr>"

text \<open>The payloads of the \<open>write_transaction\<close> calls made between two worlds.\<close>

definition new_flushes :: "'v world \<Rightarrow> 'v world \<Rightarrow> 'v batch list" where
  "new_flushes w w' = drop (length (flushed w)) (flushed w')"

text \<open>
  The exception with which \<open>write_transaction\<close> itself fails under a script, if it
  does: the transaction cannot be opened, or its commit fails.
\<close>

definition raises :: "tx \<Rightarrow> exn option" where
  "raises t = (case begin_fault t of Some e \<Rightarrow> Some e | None \<Rightarrow> commit_fault t)"

text \<open>The two lines that \<open>close\<close> prints.\<close>

fun is_close_message :: "message \<Rightarrow> bool" where
  "is_close_message Closed_ok = True"
| "is_close_message (Close_failed e) = True"
| "is_close_message m = False"

text \<open>A script under which nothing fails.\<close>

definition no_fault :: tx where
  "no_fault = \<lparr>begin_fault = None, run_fault = None, commit_fault = None\<rparr>"

text \<open>A store where nothing fails, a loader whose driver exists, and sample rows.\<close>

definition example_env :: "cell env" where
  "example_env = \<lparr>read_config = Inr (''bolt://localhost:7687'', ''neo4j'', ''secret'', ''products.csv''),
      driver_fault = None, read_csv = (\<lambda>p. Inr []), session_fault = None,
      tx_faults = (\<lambda>k. no_fault), close_fault = None\<rparr>"

definition example_loader :: loader where
  "example_loader = \<lparr>has_driver = True, FILE_PATH = Some ''products.csv''\<rparr>"

definition example_row :: "int \<Rightarrow> cell row" where
  "example_row i = [(''id'', Int_cell i), (''price'', Int_cell (10 * i))]"

text \<open>
  A store whose second transaction fails inside \<open>tx.run\<close> (a value the driver cannot
  encode, say) while the transaction itself opens and commits; and one whose second
  transaction cannot be committed.
\<close>

definition run_fails_second :: "cell env" where
  "run_fails_second = example_env\<lparr>tx_faults :=
     (\<lambda>k. if k = 1 then no_fault\<lparr>run_fault := Some (OtherException ''unsupported value'')\<rparr>
          else no_fault)\<rparr>"

definition commit_fails_second :: "cell env" where
  "commit_fails_second = example_env\<lparr>tx_faults :=
     (\<lambda>k. if k = 1 then no_fault\<lparr>commit_fault := Some (OtherException ''connection lost'')\<rparr>
          else no_fault)\<rparr>"

text \<open>A file system on which the source file does not exist.\<close>

definition missing_file_env :: "cell env" where
  "missing_file_env = example_env\<lparr>read_csv :=
     (\<lambda>p. Inl (FileNotFoundError ''No such file or directory''))\<rparr>"



text \<open>
  A run in which things fail: the source has three rows, the one transaction cannot be
  committed, and closing the driver raises.
\<close>

definition failing_env :: "cell env" where
  "failing_env = example_env\<lparr>
     read_csv := (\<lambda>p. Inr [example_row 0, example_row 1, example_row 2]),
     tx_faults := (\<lambda>k. no_fault\<lparr>commit_fault := Some (OtherException ''connection lost'')\<rparr>),
     close_fault := Some (OtherException ''already closed'')\<rparr>"

section \<open>Verification\<close>

subsection \<open>The statement of the source\<close>

lemma words_query:
  "split_words [] query =
     [''UNWIND'', ''$products'', ''AS'', ''product'', ''CREATE'', ''(p:Product)'', ''SET'', ''p'',
      ''='', ''product'']"
  by (simp add: query_def is_space_def)

lemma node_pattern_Product: "node_pattern ''(p:Product)'' = Some (''p'', ''Product'')"
  by (simp add: node_pattern_def)

lemma parse_query: "parse_statement query = Some (''products'', ''Product'')"
  by (simp add: parse_statement_def words_query node_pattern_Product)

lemma cypher_query: "cypher query [(''products'', products)] = Inr (map mk_node products)"
proof -
  have "(\<lambda>p. \<lparr>label = ''Product'', props = p\<rparr>) = (mk_node :: 'a product \<Rightarrow> 'a node)"
    by (rule ext) (simp add: mk_node_def)
  then show ?thesis by (simp add: cypher_def parse_query)
qed

lemma tx_run_query:
  "tx_run t query [(''products'', products)] w =
     (case run_fault t of
        Some e \<Rightarrow> (Inl e, w)
      | None \<Rightarrow> (Inr (), w\<lparr>pending := pending w @ map mk_node products\<rparr>))"
  by (simp add: tx_run_def cypher_query split: option.split)

subsection \<open>The rows that iterrows yields\<close>

lemma length_iterrows [simp]: "length (iterrows data) = length data"
  by (simp add: iterrows_def)

lemma iterrows_Nil [simp]: "iterrows [] = []"
  by (simp add: iterrows_def)

lemma as_dtype_same: "d \<noteq> Float64 \<Longrightarrow> as_dtype d v = v"
  by (cases d) simp_all

lemma row_series_same: "common_dtype data \<noteq> Float64 \<Longrightarrow> row_series data row = row"
  by (induction row) (auto simp: row_series_def as_dtype_same)

lemma iterrows_same: "common_dtype data \<noteq> Float64 \<Longrightarrow> iterrows data = data"
  by (simp add: iterrows_def row_series_same map_idI)


lemma iterrows_example3 [simp]:
  "iterrows [example_row a, example_row b, example_row c] =
     [example_row a, example_row b, example_row c]"
  by (rule iterrows_same) (simp add: common_dtype_def example_row_def)

lemma iterrows_example1 [simp]: "iterrows [example_row a] = [example_row a]"
  by (rule iterrows_same) (simp add: common_dtype_def example_row_def)

subsection \<open>Facts about one transaction\<close>

lemma create_product_nodes_returns: "fst (create_product_nodes t ps w) = Inr ()"
  by (simp add: create_product_nodes_def tx_run_query split: option.split)

lemma write_transaction_flushed:
  "flushed (snd (write_transaction env create_product_nodes b w)) = flushed w @ [b]"
  by (simp add: write_transaction_def Let_def create_product_nodes_def tx_run_query print_def
      split: option.split)

lemma write_transaction_result:
  "fst (write_transaction env create_product_nodes b w) =
     (case raises (tx_faults env (length (flushed w))) of Some e \<Rightarrow> Inl e | None \<Rightarrow> Inr ())"
  by (simp add: write_transaction_def Let_def create_product_nodes_def tx_run_query print_def
      raises_def split: option.split)

lemma write_transaction_frame:
  "sessions_opened (snd (write_transaction env create_product_nodes b w)) = sessions_opened w"
  "sessions_closed (snd (write_transaction env create_product_nodes b w)) = sessions_closed w"
  "driver_close_calls (snd (write_transaction env create_product_nodes b w)) = driver_close_calls w"
  "filter is_close_message (stdout (snd (write_transaction env create_product_nodes b w))) =
     filter is_close_message (stdout w)"
  by (simp_all add: write_transaction_def Let_def create_product_nodes_def tx_run_query print_def
      split: option.split)

lemma write_transaction_pending:
  "pending w = [] \<Longrightarrow> pending (snd (write_transaction env create_product_nodes b w)) = []"
  by (simp add: write_transaction_def Let_def create_product_nodes_def tx_run_query print_def
      split: option.split)

lemma write_transaction_nodes_raised:
  "raises (tx_faults env (length (flushed w))) = Some e \<Longrightarrow>
     nodes (snd (write_transaction env create_product_nodes b w)) = nodes w"
  by (simp add: write_transaction_def Let_def create_product_nodes_def tx_run_query print_def
      raises_def split: option.splits)

lemma write_transaction_nodes_ok:
  "raises (tx_faults env (length (flushed w))) = None \<Longrightarrow>
   run_fault (tx_faults env (length (flushed w))) = None \<Longrightarrow> pending w = [] \<Longrightarrow>
     nodes (snd (write_transaction env create_product_nodes b w)) = nodes w @ map mk_node b"
  by (simp add: write_transaction_def Let_def create_product_nodes_def tx_run_query print_def
      raises_def split: option.splits)

lemma write_transaction_stdout_ok:
  "run_fault (tx_faults env (length (flushed w))) = None \<Longrightarrow>
     stdout (snd (write_transaction env create_product_nodes b w)) = stdout w"
  by (simp add: write_transaction_def Let_def create_product_nodes_def tx_run_query print_def
      split: option.splits)

lemma raises_no_fault: "raises no_fault = None"
  by (simp add: raises_def no_fault_def)

subsection \<open>The loop\<close>

lemma batch_loop_flush:
  assumes "n \<le> Suc (length acc)"
  shows "batch_loop env (int n) (row # rows) acc w =
           (case write_transaction env create_product_nodes (acc @ [to_dict row]) w of
              (Inl e, w') \<Rightarrow> (Inl e, w')
            | (Inr u, w') \<Rightarrow> batch_loop env (int n) rows [] w')"
  using assms by simp

lemma batch_loop_keep:
  assumes "Suc (length acc) < n"
  shows "batch_loop env (int n) (row # rows) acc w = batch_loop env (int n) rows (acc @ [to_dict row]) w"
  using assms by simp

lemma batch_loop_ok:
  assumes n: "0 < n"
  shows "length acc < n \<Longrightarrow>
     \<forall>i < (length acc + length rows) div n. raises (tx_faults env (length (flushed w) + i)) = None \<Longrightarrow>
     \<exists>acc' w' F. batch_loop env (int n) rows acc w = (Inr acc', w') \<and> flushed w' = flushed w @ F \<and>
        concat F @ acc' = acc @ map to_dict rows \<and> (\<forall>b\<in>set F. length b = n) \<and>
        length acc' < n \<and> length F = (length acc + length rows) div n \<and>
        (pending w = [] \<and>
         (\<forall>i < (length acc + length rows) div n. run_fault (tx_faults env (length (flushed w) + i)) = None)
         \<longrightarrow> nodes w' = nodes w @ map mk_node (concat F) \<and> pending w' = [] \<and> stdout w' = stdout w)"
proof (induction rows arbitrary: acc w)
  case Nil
  then show ?case by simp
next
  case (Cons row rows)
  let ?b = "acc @ [to_dict row]"
  show ?case
  proof (cases "n \<le> Suc (length acc)")
    case True
    with Cons.prems(1) have len: "length ?b = n" by simp
    then have "length acc + length (row # rows) = n + length rows" by simp
    then have m: "(length acc + length (row # rows)) div n = Suc (length rows div n)"
      using n by (simp only: div_add_self1)
    let ?r = "write_transaction env create_product_nodes ?b w"
    have "raises (tx_faults env (length (flushed w) + 0)) = None"
      using Cons.prems(2) m by (metis zero_less_Suc)
    then have r0: "raises (tx_faults env (length (flushed w))) = None" by simp
    then have "fst ?r = Inr ()"
      by (simp add: write_transaction_result)
    then have w1: "?r = (Inr (), snd ?r)"
      by (metis prod.collapse)
    have f1: "flushed (snd ?r) = flushed w @ [?b]"
      by (rule write_transaction_flushed)
    have ok': "\<forall>i < (length ([]::'a batch) + length rows) div n.
                 raises (tx_faults env (length (flushed (snd ?r)) + i)) = None"
    proof (intro allI impI)
      fix i assume "i < (length ([]::'a batch) + length rows) div n"
      then have "Suc i < (length acc + length (row # rows)) div n" using m by simp
      with Cons.prems(2) have "raises (tx_faults env (length (flushed w) + Suc i)) = None" by blast
      then show "raises (tx_faults env (length (flushed (snd ?r)) + i)) = None" using f1 by simp
    qed
    from n have "length ([]::'a batch) < n" by simp
    from Cons.IH [OF this ok'] obtain acc' w' F where
      IH: "batch_loop env (int n) rows [] (snd ?r) = (Inr acc', w')" "flushed w' = flushed (snd ?r) @ F"
        "concat F @ acc' = [] @ map to_dict rows" "\<forall>b\<in>set F. length b = n" "length acc' < n"
        "length F = (length ([]::'a batch) + length rows) div n"
        "pending (snd ?r) = [] \<and>
         (\<forall>i < (length ([]::'a batch) + length rows) div n.
            run_fault (tx_faults env (length (flushed (snd ?r)) + i)) = None)
         \<longrightarrow> nodes w' = nodes (snd ?r) @ map mk_node (concat F) \<and> pending w' = [] \<and>
             stdout w' = stdout (snd ?r)"
      by blast
    have extra: "nodes w' = nodes w @ map mk_node (concat (?b # F)) \<and> pending w' = [] \<and>
          stdout w' = stdout w"
      if p: "pending w = []"
        and rf: "\<forall>i < (length acc + length (row # rows)) div n.
               run_fault (tx_faults env (length (flushed w) + i)) = None"
    proof -
      have rf0: "run_fault (tx_faults env (length (flushed w))) = None"
        using rf m by (metis add.right_neutral zero_less_Suc)
      have "\<forall>i < (length ([]::'a batch) + length rows) div n.
            run_fault (tx_faults env (length (flushed (snd ?r)) + i)) = None"
      proof (intro allI impI)
        fix i assume "i < (length ([]::'a batch) + length rows) div n"
        then have "Suc i < (length acc + length (row # rows)) div n" using m by simp
        with rf have "run_fault (tx_faults env (length (flushed w) + Suc i)) = None" by blast
        then show "run_fault (tx_faults env (length (flushed (snd ?r)) + i)) = None" using f1 by simp
      qed
      moreover have "pending (snd ?r) = []"
        using p by (rule write_transaction_pending)
      ultimately have "nodes w' = nodes (snd ?r) @ map mk_node (concat F) \<and> pending w' = [] \<and>
             stdout w' = stdout (snd ?r)"
        using IH(7) by blast
      moreover have "nodes (snd ?r) = nodes w @ map mk_node ?b"
        using r0 rf0 p by (simp add: write_transaction_nodes_ok)
      moreover have "stdout (snd ?r) = stdout w"
        using rf0 by (rule write_transaction_stdout_ok)
      ultimately show ?thesis by simp
    qed
    have "batch_loop env (int n) (row # rows) acc w = (Inr acc', w')"
      using batch_loop_flush [OF True, of env row rows w] w1 IH(1)
      by (metis (no_types, lifting) case_prod_conv sum.case(2))
    moreover have "flushed w' = flushed w @ (?b # F)"
      using IH(2) f1 by simp
    moreover have "concat (?b # F) @ acc' = acc @ map to_dict (row # rows)"
      using IH(3) by simp
    moreover have "\<forall>b\<in>set (?b # F). length b = n"
      using IH(4) len by simp
    moreover have "length (?b # F) = (length acc + length (row # rows)) div n"
      using IH(6) m by simp
    ultimately show ?thesis using IH(5) extra by blast
  next
    case False
    then have lt: "Suc (length acc) < n" by simp
    then have l': "length ?b < n" by simp
    have ok': "\<forall>i < (length ?b + length rows) div n.
                 raises (tx_faults env (length (flushed w) + i)) = None"
      using Cons.prems(2) by simp
    from Cons.IH [OF l' ok'] obtain acc' w' F where
      IH: "batch_loop env (int n) rows ?b w = (Inr acc', w')" "flushed w' = flushed w @ F"
        "concat F @ acc' = ?b @ map to_dict rows" "\<forall>b\<in>set F. length b = n" "length acc' < n"
        "length F = (length ?b + length rows) div n"
        "pending w = [] \<and>
         (\<forall>i < (length ?b + length rows) div n. run_fault (tx_faults env (length (flushed w) + i)) = None)
         \<longrightarrow> nodes w' = nodes w @ map mk_node (concat F) \<and> pending w' = [] \<and> stdout w' = stdout w"
      by blast
    have "batch_loop env (int n) (row # rows) acc w = (Inr acc', w')"
      using batch_loop_keep [OF lt] IH(1) by simp
    then show ?thesis using IH by auto
  qed
qed

subsection \<open>Arithmetic of full batches\<close>

lemma map_length_const:
  "\<forall>b\<in>set F. length b = n \<Longrightarrow> map length F = replicate (length F) n"
  by (induction F) auto

lemma length_concat_const:
  "\<forall>b\<in>set F. length b = n \<Longrightarrow> length (concat F) = length F * n"
  by (induction F) auto

lemma remainder_length:
  assumes "concat F @ r = xs" and "\<forall>b\<in>set F. length b = n" and "length r < n"
  shows "length F = length xs div n \<and> length r = length xs mod n"
proof -
  have "length xs = length F * n + length r"
    using assms(1) length_concat_const [OF assms(2)] by auto
  then show ?thesis using assms(3) by simp
qed

lemma ceiling_batches:
  assumes "0 < n"
  shows "\<lceil>real R / real n\<rceil> = int (R div n + (if R mod n = 0 then 0 else 1))"
proof -
  have a: "int R div int n = int (R div n)" by (simp add: zdiv_int)
  have b: "int R mod int n = int (R mod n)" by (simp add: zmod_int)
  have c: "- int R div int n =
        (if int R mod int n = 0 then - (int R div int n) else - (int R div int n) - 1)"
    by (rule zdiv_zminus1_eq_if) (use assms in simp)
  have "\<lceil>real R / real n\<rceil> = \<lceil>of_int (int R) / (of_int (int n) :: real)\<rceil>" by simp
  also have "\<dots> = - (- int R div int n)" by (rule ceiling_divide_eq_div)
  also have "\<dots> = int (R div n + (if R mod n = 0 then 0 else 1))"
    unfolding c a b by simp
  finally show ?thesis .
qed

subsection \<open>The session body and the method\<close>

lemma session_body_ok:
  assumes n: "0 < n" and yielded: "rows = iterrows data"
    and ok: "\<forall>i < length rows div n + (if length rows mod n = 0 then 0 else 1).
               raises (tx_faults env (length (flushed w) + i)) = None"
  shows "\<exists>w' F. session_body env data (int n) w = (Inr (), w') \<and> flushed w' = flushed w @ F \<and>
           concat F = map to_dict rows \<and>
           map length F = replicate (length rows div n) n @
              (if length rows mod n = 0 then [] else [length rows mod n]) \<and>
           last (stdout w') = All_loaded \<and>
           (pending w = [] \<and>
            (\<forall>i < length rows div n + (if length rows mod n = 0 then 0 else 1).
               run_fault (tx_faults env (length (flushed w) + i)) = None)
            \<longrightarrow> nodes w' = nodes w @ map mk_node (map to_dict rows) \<and> pending w' = [] \<and>
                stdout w' = stdout w @ [All_loaded])"
proof -
  let ?R = "length rows"
  let ?M = "?R div n + (if ?R mod n = 0 then 0 else 1)"
  have ok1: "\<forall>i < (length ([]::cell batch) + ?R) div n. raises (tx_faults env (length (flushed w) + i)) = None"
    using ok by simp
  from n have "length ([]::cell batch) < n" by simp
  from batch_loop_ok [OF n this ok1] obtain acc w1 F where
    L: "batch_loop env (int n) rows [] w = (Inr acc, w1)" "flushed w1 = flushed w @ F"
      "concat F @ acc = [] @ map to_dict rows" "\<forall>b\<in>set F. length b = n" "length acc < n"
      "length F = (length ([]::cell batch) + ?R) div n"
      "pending w = [] \<and>
         (\<forall>i < (length ([]::cell batch) + ?R) div n. run_fault (tx_faults env (length (flushed w) + i)) = None)
         \<longrightarrow> nodes w1 = nodes w @ map mk_node (concat F) \<and> pending w1 = [] \<and> stdout w1 = stdout w"
    by blast
  from L(3) have cat: "concat F @ acc = map to_dict rows" by simp
  have "length F = length (map to_dict rows) div n \<and> length acc = length (map to_dict rows) mod n"
    using cat L(4) L(5) by (rule remainder_length)
  then have lF: "length F = ?R div n" and la: "length acc = ?R mod n" by simp_all
  have mF: "map length F = replicate (?R div n) n"
    using map_length_const [OF L(4)] lF by simp
  show ?thesis
  proof (cases "acc = []")
    case True
    then have z: "?R mod n = 0" using la by simp
    have "session_body env data (int n) w = (Inr (), print All_loaded w1)"
      using L(1) True by (simp add: session_body_def yielded [symmetric])
    moreover have "flushed (print All_loaded w1) = flushed w @ F"
      using L(2) by (simp add: print_def)
    moreover have "concat F = map to_dict rows" using cat True by simp
    moreover have "map length F = replicate (?R div n) n @ (if ?R mod n = 0 then [] else [?R mod n])"
      using mF z by simp
    moreover have "last (stdout (print All_loaded w1)) = All_loaded" by (simp add: print_def)
    moreover have "nodes (print All_loaded w1) = nodes w @ map mk_node (map to_dict rows) \<and>
        pending (print All_loaded w1) = [] \<and> stdout (print All_loaded w1) = stdout w @ [All_loaded]"
      if "pending w = []" "\<forall>i < ?M. run_fault (tx_faults env (length (flushed w) + i)) = None"
      using that L(7) z cat True by (simp add: print_def)
    ultimately show ?thesis by blast
  next
    case False
    then have "length acc \<noteq> 0" by simp
    then have nz: "?R mod n \<noteq> 0" using la by simp
    let ?r = "write_transaction env create_product_nodes acc w1"
    have idx: "length (flushed w1) = length (flushed w) + ?R div n"
      using L(2) lF by simp
    have "?R div n < ?M" using nz by simp
    with ok have r0: "raises (tx_faults env (length (flushed w1))) = None"
      unfolding idx by blast
    then have "fst ?r = Inr ()" by (simp add: write_transaction_result)
    then obtain w2 where r: "?r = (Inr (), w2)" by (cases ?r) auto
    then have s2: "snd ?r = w2" by simp
    let ?w' = "print All_loaded w2"
    have "session_body env data (int n) w = (Inr (), ?w')"
      using L(1) False r by (simp add: session_body_def yielded [symmetric])
    moreover have "flushed ?w' = flushed w @ (F @ [acc])"
      using L(2) write_transaction_flushed [of env acc w1] s2 by (simp add: print_def)
    moreover have "concat (F @ [acc]) = map to_dict rows" using cat by simp
    moreover have "map length (F @ [acc]) =
        replicate (?R div n) n @ (if ?R mod n = 0 then [] else [?R mod n])"
      using mF nz la by simp
    moreover have "last (stdout ?w') = All_loaded" by (simp add: print_def)
    moreover have "nodes ?w' = nodes w @ map mk_node (map to_dict rows) \<and>
        pending ?w' = [] \<and> stdout ?w' = stdout w @ [All_loaded]"
      if p: "pending w = []" and rf: "\<forall>i < ?M. run_fault (tx_faults env (length (flushed w) + i)) = None"
    proof -
      have "\<forall>i < (length ([]::cell batch) + ?R) div n. run_fault (tx_faults env (length (flushed w) + i)) = None"
        using rf by simp
      with p L(7) have w1: "nodes w1 = nodes w @ map mk_node (concat F)" "pending w1 = []"
        "stdout w1 = stdout w" by blast+
      have rf0: "run_fault (tx_faults env (length (flushed w1))) = None"
        using rf \<open>?R div n < ?M\<close> unfolding idx by blast
      have "nodes w2 = nodes w1 @ map mk_node acc"
        using write_transaction_nodes_ok [OF r0 rf0 w1(2), of acc] s2 by simp
      moreover have "pending w2 = []"
        using write_transaction_pending [OF w1(2), of env acc] s2 by simp
      moreover have "stdout w2 = stdout w1"
        using write_transaction_stdout_ok [OF rf0, of acc] s2 by simp
      moreover have "map mk_node (concat F) @ map mk_node acc = map mk_node (map to_dict rows)"
        using cat by (metis map_append)
      ultimately show ?thesis using w1 by (simp add: print_def)
    qed
    ultimately show ?thesis by blast
  qed
qed

lemma load_csv_to_neo4j_ok:
  assumes n: "0 < n" and d: "has_driver self" and s: "session_fault env = None"
    and yielded: "rows = iterrows data"
    and ok: "\<forall>i < length rows div n + (if length rows mod n = 0 then 0 else 1).
               raises (tx_faults env (length (flushed w) + i)) = None"
  shows "\<exists>w' F. load_csv_to_neo4j env self data (int n) w = (Inr (), w') \<and> flushed w' = flushed w @ F \<and>
           concat F = map to_dict rows \<and>
           map length F = replicate (length rows div n) n @
              (if length rows mod n = 0 then [] else [length rows mod n]) \<and>
           last (stdout w') = All_loaded \<and>
           (pending w = [] \<and>
            (\<forall>i < length rows div n + (if length rows mod n = 0 then 0 else 1).
               run_fault (tx_faults env (length (flushed w) + i)) = None)
            \<longrightarrow> nodes w' = nodes w @ map mk_node (map to_dict rows) \<and> pending w' = [] \<and>
                stdout w' = stdout w @ [All_loaded])"
proof -
  let ?w0 = "w\<lparr>sessions_opened := Suc (sessions_opened w)\<rparr>"
  have ok0: "\<forall>i < length rows div n + (if length rows mod n = 0 then 0 else 1).
               raises (tx_faults env (length (flushed ?w0) + i)) = None"
    using ok by simp
  from session_body_ok [OF n yielded ok0] obtain w1 F where
    S: "session_body env data (int n) ?w0 = (Inr (), w1)" "flushed w1 = flushed ?w0 @ F"
      "concat F = map to_dict rows"
      "map length F = replicate (length rows div n) n @
              (if length rows mod n = 0 then [] else [length rows mod n])"
      "last (stdout w1) = All_loaded"
      "pending ?w0 = [] \<and>
            (\<forall>i < length rows div n + (if length rows mod n = 0 then 0 else 1).
               run_fault (tx_faults env (length (flushed ?w0) + i)) = None)
            \<longrightarrow> nodes w1 = nodes ?w0 @ map mk_node (map to_dict rows) \<and> pending w1 = [] \<and>
                stdout w1 = stdout ?w0 @ [All_loaded]"
    by blast
  have "load_csv_to_neo4j env self data (int n) w = (Inr (), close_session w1)"
    using d s S(1) by (simp add: load_csv_to_neo4j_def)
  moreover have "flushed (close_session w1) = flushed w @ F"
    using S(2) by (simp add: close_session_def)
  moreover have "last (stdout (close_session w1)) = All_loaded"
    using S(5) by (simp add: close_session_def)
  moreover have "pending w = [] \<and>
            (\<forall>i < length rows div n + (if length rows mod n = 0 then 0 else 1).
               run_fault (tx_faults env (length (flushed w) + i)) = None)
            \<longrightarrow> nodes (close_session w1) = nodes w @ map mk_node (map to_dict rows) \<and>
                pending (close_session w1) = [] \<and>
                stdout (close_session w1) = stdout w @ [All_loaded]"
    using S(6) by (simp add: close_session_def)
  ultimately show ?thesis using S(3,4) by blast
qed

lemma new_flushes_append: "flushed w' = flushed w @ F \<Longrightarrow> new_flushes w w' = F"
  by (simp add: new_flushes_def)

subsection \<open>Number and sizes of the flushes\<close>

text \<open>
  Claim C1. When the store accepts every transaction (the driver exists, the session opens
  and no \<open>write_transaction\<close> call raises), \<open>load_csv_to_neo4j\<close> on \<open>R\<close> rows with a
  positive batch size \<open>B\<close> makes exactly \<open>\<lceil>R / B\<rceil>\<close> calls of \<open>write_transaction\<close>; their
  payloads have sizes \<open>B, \<dots>, B\<close>, followed by \<open>R mod B\<close> when that is not zero.
  Failures of \<open>tx.run\<close> are allowed: they do not change the calls. For 2500 rows and
  \<open>B = 1000\<close> the sizes are 1000, 1000, 500 (the witness below).
\<close>

theorem flush_count_and_sizes:
  assumes "0 < B" and "has_driver self" and "session_fault env = None"
    and "\<forall>k. raises (tx_faults env k) = None"
  shows "\<exists>w'. load_csv_to_neo4j env self rows B w = (Inr (), w') \<and>
           map length (new_flushes w w') =
             replicate (length rows div nat B) (nat B) @
               (if length rows mod nat B = 0 then [] else [length rows mod nat B]) \<and>
           int (length (new_flushes w w')) = \<lceil>real (length rows) / real_of_int B\<rceil>"
proof -
  let ?n = "nat B"
  define ys where "ys = iterrows rows"
  let ?R = "length ys"
  have len: "length ys = length rows" by (simp add: ys_def)
  from assms(1) have n: "0 < ?n" and B: "B = int ?n" by simp_all
  have ok: "\<forall>i < ?R div ?n + (if ?R mod ?n = 0 then 0 else 1).
               raises (tx_faults env (length (flushed w) + i)) = None"
    using assms(4) by simp
  from load_csv_to_neo4j_ok [OF n assms(2,3) ys_def ok] obtain w' F where
    L: "load_csv_to_neo4j env self rows (int ?n) w = (Inr (), w')" "flushed w' = flushed w @ F"
      "map length F = replicate (?R div ?n) ?n @ (if ?R mod ?n = 0 then [] else [?R mod ?n])"
    by blast
  have nf: "new_flushes w w' = F" using L(2) by (rule new_flushes_append)
  have "length F = length (map length F)" by simp
  also have "\<dots> = ?R div ?n + (if ?R mod ?n = 0 then 0 else 1)"
    unfolding L(3) by simp
  finally have "int (length F) = \<lceil>real ?R / real ?n\<rceil>"
    using ceiling_batches [OF n, of ?R] by simp
  moreover have "real ?n = real_of_int B" using assms(1) by simp
  ultimately have "int (length F) = \<lceil>real ?R / real_of_int B\<rceil>" by simp
  then show ?thesis using L(1,3) nf B len by auto
qed

theorem flush_count_and_sizes_witness:
  "(0::int) < 1000 \<and> has_driver example_loader \<and> session_fault example_env = None \<and>
   (\<forall>k. raises (tx_faults example_env k) = None) \<and>
   (\<exists>w'. load_csv_to_neo4j example_env example_loader (map example_row [0..<2500]) 1000 world0
            = (Inr (), w') \<and>
         map length (new_flushes world0 w') = [1000, 1000, 500] \<and>
         length (new_flushes world0 w') = 3)"
proof -
  have h1: "(0::int) < 1000" by simp
  have h2: "has_driver example_loader" by (simp add: example_loader_def)
  have h3: "session_fault example_env = None" by (simp add: example_env_def)
  have h4: "\<forall>k. raises (tx_faults example_env k) = None"
    by (simp add: example_env_def raises_no_fault)
  have r: "replicate 2 (1000::nat) = [1000, 1000]"
    by (simp add: numeral_2_eq_2)
  have c: "\<lceil>(2500::real) / 1000\<rceil> = 3" by (simp add: ceiling_eq_iff)
  show ?thesis
    using flush_count_and_sizes [OF h1 h2 h3 h4, of "map example_row [0..<2500]" world0] h1 h2 h3 h4
    by (simp add: r c)
qed

subsection \<open>The loop under any store\<close>

lemma batch_loop_any:
  "\<exists>F. flushed (snd (batch_loop env B rows acc w)) = flushed w @ F \<and> (\<forall>b\<in>set F. b \<noteq> []) \<and>
     sessions_opened (snd (batch_loop env B rows acc w)) = sessions_opened w \<and>
     sessions_closed (snd (batch_loop env B rows acc w)) = sessions_closed w \<and>
     driver_close_calls (snd (batch_loop env B rows acc w)) = driver_close_calls w \<and>
     filter is_close_message (stdout (snd (batch_loop env B rows acc w))) =
       filter is_close_message (stdout w)"
proof (induction rows arbitrary: acc w)
  case Nil
  then show ?case by simp
next
  case (Cons row rows)
  let ?b = "acc @ [to_dict row]"
  show ?case
  proof (cases "B \<le> int (length ?b)")
    case True
    let ?r = "write_transaction env create_product_nodes ?b w"
    obtain res w1 where r: "?r = (res, w1)" by (cases ?r)
    then have s: "snd ?r = w1" by simp
    have f1: "flushed w1 = flushed w @ [?b]"
      using write_transaction_flushed [of env ?b w] s by simp
    have fr: "sessions_opened w1 = sessions_opened w" "sessions_closed w1 = sessions_closed w"
      "driver_close_calls w1 = driver_close_calls w"
      "filter is_close_message (stdout w1) = filter is_close_message (stdout w)"
      using write_transaction_frame [of env ?b w] s by simp_all
    show ?thesis
    proof (cases res)
      case (Inl e)
      then have "batch_loop env B (row # rows) acc w = (Inl e, w1)"
        using True r by simp
      moreover have "\<forall>b\<in>set [?b]. b \<noteq> []" by simp
      ultimately show ?thesis using f1 fr by (metis snd_conv)
    next
      case (Inr u)
      then have eq: "batch_loop env B (row # rows) acc w = batch_loop env B rows [] w1"
        using True r by simp
      from Cons.IH [of "[]" w1] obtain F where
        IH: "flushed (snd (batch_loop env B rows [] w1)) = flushed w1 @ F" "\<forall>b\<in>set F. b \<noteq> []"
          "sessions_opened (snd (batch_loop env B rows [] w1)) = sessions_opened w1"
          "sessions_closed (snd (batch_loop env B rows [] w1)) = sessions_closed w1"
          "driver_close_calls (snd (batch_loop env B rows [] w1)) = driver_close_calls w1"
          "filter is_close_message (stdout (snd (batch_loop env B rows [] w1))) =
             filter is_close_message (stdout w1)"
        by blast
      have "flushed (snd (batch_loop env B rows [] w1)) = flushed w @ (?b # F)"
        using IH(1) f1 by simp
      moreover have "\<forall>b\<in>set (?b # F). b \<noteq> []" using IH(2) by simp
      ultimately show ?thesis unfolding eq using IH(3-6) fr by (metis (no_types, lifting))
    qed
  next
    case False
    then have eq: "batch_loop env B (row # rows) acc w = batch_loop env B rows ?b w" by simp
    show ?thesis unfolding eq by (rule Cons.IH)
  qed
qed

lemma batch_loop_acc_bound:
  assumes B: "0 < B"
  shows "int (length acc) < B \<Longrightarrow> batch_loop env B rows acc w = (Inr acc', w') \<Longrightarrow>
     int (length acc') < B"
proof (induction rows arbitrary: acc w)
  case Nil
  then show ?case by simp
next
  case (Cons row rows)
  let ?b = "acc @ [to_dict row]"
  show ?case
  proof (cases "B \<le> int (length ?b)")
    case True
    obtain res w1 where r: "write_transaction env create_product_nodes ?b w = (res, w1)"
      by (cases "write_transaction env create_product_nodes ?b w")
    with True Cons.prems(2) have "batch_loop env B rows [] w1 = (Inr acc', w')"
      by (cases res) simp_all
    moreover from B have "int (length ([]::'a batch)) < B" by simp
    ultimately show ?thesis by (rule Cons.IH [rotated])
  next
    case False
    with Cons.prems(2) have "batch_loop env B rows ?b w = (Inr acc', w')" by simp
    moreover from False have "int (length ?b) < B" by simp
    ultimately show ?thesis by (rule Cons.IH [rotated])
  qed
qed

lemma batch_loop_append:
  "batch_loop env B (xs @ ys) acc w =
     (case batch_loop env B xs acc w of
        (Inl e, w') \<Rightarrow> (Inl e, w')
      | (Inr acc', w') \<Rightarrow> batch_loop env B ys acc' w')"
  by (induction xs arbitrary: acc w) (auto simp: Let_def split: prod.splits sum.splits)

lemma session_body_any:
  assumes yielded: "rows = iterrows data"
  shows "\<exists>F. flushed (snd (session_body env data B w)) = flushed w @ F \<and> (\<forall>b\<in>set F. b \<noteq> []) \<and>
     sessions_opened (snd (session_body env data B w)) = sessions_opened w \<and>
     sessions_closed (snd (session_body env data B w)) = sessions_closed w \<and>
     driver_close_calls (snd (session_body env data B w)) = driver_close_calls w \<and>
     filter is_close_message (stdout (snd (session_body env data B w))) =
       filter is_close_message (stdout w)"
proof -
  let ?l = "batch_loop env B rows [] w"
  obtain res w1 where l: "?l = (res, w1)" by (cases ?l)
  then have s: "snd ?l = w1" by simp
  from batch_loop_any [of env B rows "[]" w] obtain F where
    L: "flushed w1 = flushed w @ F" "\<forall>b\<in>set F. b \<noteq> []"
       "sessions_opened w1 = sessions_opened w" "sessions_closed w1 = sessions_closed w"
       "driver_close_calls w1 = driver_close_calls w"
       "filter is_close_message (stdout w1) = filter is_close_message (stdout w)"
    unfolding s by blast
  show ?thesis
  proof (cases res)
    case (Inl e)
    then have "session_body env data B w = (Inl e, w1)" using l by (simp add: session_body_def yielded [symmetric])
    then show ?thesis using L by (metis snd_conv)
  next
    case (Inr batch)
    show ?thesis
    proof (cases "batch = []")
      case True
      then have "session_body env data B w = (Inr (), print All_loaded w1)"
        using l Inr by (simp add: session_body_def yielded [symmetric])
      then show ?thesis using L by (simp add: print_def)
    next
      case False
      let ?r = "write_transaction env create_product_nodes batch w1"
      obtain res2 w2 where r: "?r = (res2, w2)" by (cases ?r)
      then have s2: "snd ?r = w2" by simp
      have f2: "flushed w2 = flushed w @ (F @ [batch])"
        using write_transaction_flushed [of env batch w1] s2 L(1) by simp
      have ne: "\<forall>b\<in>set (F @ [batch]). b \<noteq> []" using L(2) False by simp
      have fr: "sessions_opened w2 = sessions_opened w" "sessions_closed w2 = sessions_closed w"
        "driver_close_calls w2 = driver_close_calls w"
        "filter is_close_message (stdout w2) = filter is_close_message (stdout w)"
        using write_transaction_frame [of env batch w1] s2 L(3-6) by simp_all
      have "snd (session_body env data B w) = w2 \<or> snd (session_body env data B w) = print All_loaded w2"
        using l Inr False r by (cases res2) (simp_all add: session_body_def yielded [symmetric])
      then show ?thesis
      proof
        assume "snd (session_body env data B w) = w2"
        then show ?thesis using f2 ne fr by metis
      next
        assume a: "snd (session_body env data B w) = print All_loaded w2"
        have "flushed (print All_loaded w2) = flushed w @ (F @ [batch])"
          using f2 by (simp add: print_def)
        then show ?thesis unfolding a using ne fr by (auto simp: print_def)
      qed
    qed
  qed
qed

lemma load_csv_to_neo4j_any:
  "\<exists>F. fst (load_csv_to_neo4j env self rows B w) = Inr () \<and>
     flushed (snd (load_csv_to_neo4j env self rows B w)) = flushed w @ F \<and> (\<forall>b\<in>set F. b \<noteq> []) \<and>
     sessions_opened (snd (load_csv_to_neo4j env self rows B w)) + sessions_closed w =
       sessions_closed (snd (load_csv_to_neo4j env self rows B w)) + sessions_opened w \<and>
     sessions_opened (snd (load_csv_to_neo4j env self rows B w)) \<le> Suc (sessions_opened w) \<and>
     driver_close_calls (snd (load_csv_to_neo4j env self rows B w)) = driver_close_calls w \<and>
     filter is_close_message (stdout (snd (load_csv_to_neo4j env self rows B w))) =
       filter is_close_message (stdout w)"
proof (cases "has_driver self \<and> session_fault env = None")
  case False
  then have "flushed (snd (load_csv_to_neo4j env self rows B w)) = flushed w @ []"
    by (auto simp: load_csv_to_neo4j_def print_def split: option.split)
  moreover have "fst (load_csv_to_neo4j env self rows B w) = Inr ()"
    using False by (auto simp: load_csv_to_neo4j_def print_def split: option.split)
  ultimately show ?thesis
    using False by (auto simp: load_csv_to_neo4j_def print_def split: option.split)
next
  case True
  let ?w0 = "w\<lparr>sessions_opened := Suc (sessions_opened w)\<rparr>"
  let ?s = "session_body env rows B ?w0"
  obtain res w1 where sb: "?s = (res, w1)" by (cases ?s)
  then have s: "snd ?s = w1" by simp
  from session_body_any [OF refl, of env rows B ?w0] obtain F where
    S: "flushed w1 = flushed w @ F" "\<forall>b\<in>set F. b \<noteq> []"
       "sessions_opened w1 = Suc (sessions_opened w)" "sessions_closed w1 = sessions_closed w"
       "driver_close_calls w1 = driver_close_calls w"
       "filter is_close_message (stdout w1) = filter is_close_message (stdout w)"
    unfolding s by auto
  have "load_csv_to_neo4j env self rows B w =
         (case res of Inl e \<Rightarrow> (Inr (), print (Load_failed e) (close_session w1))
                    | Inr u \<Rightarrow> (Inr (), close_session w1))"
    using True sb by (simp add: load_csv_to_neo4j_def)
  then show ?thesis using S
    by (cases res) (simp_all add: print_def close_session_def)
qed

lemmas loader_eval =
  load_csv_to_neo4j_def session_body_def write_transaction_def create_product_nodes_def
  tx_run_query print_def close_session_def Let_def no_fault_def

lemma load_csv_to_neo4j_accepted:
  assumes "0 < B" and "has_driver self" and "session_fault env = None"
    and "\<forall>k. raises (tx_faults env k) = None"
  shows "\<exists>w'. load_csv_to_neo4j env self rows B w = (Inr (), w') \<and>
           concat (new_flushes w w') = map to_dict (iterrows rows) \<and> last (stdout w') = All_loaded \<and>
           (pending w = [] \<and> (\<forall>k. run_fault (tx_faults env k) = None)
            \<longrightarrow> nodes w' = nodes w @ map mk_node (map to_dict (iterrows rows)) \<and>
                stdout w' = stdout w @ [All_loaded])"
proof -
  let ?n = "nat B"
  let ?R = "length (iterrows rows)"
  from assms(1) have n: "0 < ?n" and B: "int ?n = B" by simp_all
  have ok: "\<forall>i < ?R div ?n + (if ?R mod ?n = 0 then 0 else 1).
               raises (tx_faults env (length (flushed w) + i)) = None"
    using assms(4) by simp
  from load_csv_to_neo4j_ok [OF n assms(2,3) refl ok] obtain w' F where
    L: "load_csv_to_neo4j env self rows (int ?n) w = (Inr (), w')" "flushed w' = flushed w @ F"
      "concat F = map to_dict (iterrows rows)" "last (stdout w') = All_loaded"
      "pending w = [] \<and>
            (\<forall>i < ?R div ?n + (if ?R mod ?n = 0 then 0 else 1).
               run_fault (tx_faults env (length (flushed w) + i)) = None)
            \<longrightarrow> nodes w' = nodes w @ map mk_node (map to_dict (iterrows rows)) \<and> pending w' = [] \<and>
                stdout w' = stdout w @ [All_loaded]"
    by blast
  have nf: "new_flushes w w' = F" using L(2) by (rule new_flushes_append)
  have "pending w = [] \<and> (\<forall>k. run_fault (tx_faults env k) = None)
            \<longrightarrow> nodes w' = nodes w @ map mk_node (map to_dict (iterrows rows)) \<and>
                stdout w' = stdout w @ [All_loaded]"
    using L(5) by simp
  then show ?thesis using L(1,3,4) nf unfolding B by blast
qed

subsection \<open>Records, batches and their order\<close>

text \<open>
  Claim C3. In the absence of failure (the session opens and no \<open>write_transaction\<close>
  call raises), the payloads of the flush calls, taken in call order and put end to
  end, are exactly the records of the rows that \<open>data.iterrows()\<close> yields, in row
  order: every record is in one batch, at one place, and every batch is flushed once.
\<close>

theorem records_flushed_once_in_order:
  assumes "0 < B" and "has_driver self" and "session_fault env = None"
    and "\<forall>k. raises (tx_faults env k) = None"
  shows "\<exists>w'. load_csv_to_neo4j env self rows B w = (Inr (), w') \<and>
           concat (new_flushes w w') = map to_dict (iterrows rows)"
  using load_csv_to_neo4j_accepted [OF assms] by blast

theorem records_flushed_once_in_order_witness:
  "(0::int) < 2 \<and> has_driver example_loader \<and> session_fault example_env = None \<and>
   (\<forall>k. raises (tx_faults example_env k) = None) \<and>
   (\<exists>w'. load_csv_to_neo4j example_env example_loader
            [example_row 0, example_row 1, example_row 2] 2 world0 = (Inr (), w') \<and>
         concat (new_flushes world0 w') =
           [to_dict (example_row 0), to_dict (example_row 1), to_dict (example_row 2)])"
proof -
  have h1: "(0::int) < 2" by simp
  have h2: "has_driver example_loader" by (simp add: example_loader_def)
  have h3: "session_fault example_env = None" by (simp add: example_env_def)
  have h4: "\<forall>k. raises (tx_faults example_env k) = None"
    by (simp add: example_env_def raises_no_fault)
  show ?thesis
    using records_flushed_once_in_order [OF h1 h2 h3 h4,
        of "[example_row 0, example_row 1, example_row 2]" world0] h1 h2 h3 h4
    by simp
qed

subsection \<open>Node properties\<close>










subsection \<open>No empty batch\<close>

text \<open>
  Claim C8. Whatever the store does and whatever the batch size, no call of
  \<open>write_transaction\<close> made by \<open>load_csv_to_neo4j\<close> has an empty payload; in
  particular for every positive batch size.
\<close>

theorem no_empty_batch_flushed:
  "\<forall>b\<in>set (new_flushes w (snd (load_csv_to_neo4j env self rows B w))). b \<noteq> []"
proof -
  from load_csv_to_neo4j_any [of env self rows B w] obtain F where
    F: "flushed (snd (load_csv_to_neo4j env self rows B w)) = flushed w @ F" "\<forall>b\<in>set F. b \<noteq> []"
    by blast
  from F(1) have "new_flushes w (snd (load_csv_to_neo4j env self rows B w)) = F"
    by (rule new_flushes_append)
  then show ?thesis using F(2) by simp
qed

theorem no_empty_batch_flushed_witness:
  "new_flushes world0 (snd (load_csv_to_neo4j example_env example_loader
       [example_row 0, example_row 1, example_row 2] 2 world0)) =
     [[to_dict (example_row 0), to_dict (example_row 1)], [to_dict (example_row 2)]] \<and>
   [] \<notin> set (new_flushes world0 (snd (load_csv_to_neo4j example_env example_loader
       [example_row 0, example_row 1, example_row 2] 2 world0)))"
proof -
  have "new_flushes world0 (snd (load_csv_to_neo4j example_env example_loader
       [example_row 0, example_row 1, example_row 2] 2 world0)) =
     [[to_dict (example_row 0), to_dict (example_row 1)], [to_dict (example_row 2)]]"
    by (simp add: loader_eval new_flushes_def example_env_def example_loader_def world0_def)
  moreover have "[] \<notin> set (new_flushes world0 (snd (load_csv_to_neo4j example_env example_loader
       [example_row 0, example_row 1, example_row 2] 2 world0)))"
    using no_empty_batch_flushed [of world0 example_env example_loader
        "[example_row 0, example_row 1, example_row 2]" 2]
    by blast
  ultimately show ?thesis by blast
qed

subsection \<open>Failures of tx.run are swallowed\<close>

text \<open>
  Claim C10. \<open>create_product_nodes\<close> returns normally for every batch and every
  transaction; when \<open>tx.run\<close> raises \<open>e\<close> the only effect is the printed line. So
  whether \<open>write_transaction\<close> raises does not depend on \<open>tx.run\<close>, and when no
  \<open>write_transaction\<close> call raises by itself the loop flushes every batch and ends
  with the line "All data have been loaded", whichever calls of \<open>tx.run\<close> failed.
\<close>

theorem run_failure_is_swallowed:
  "fst (create_product_nodes t products w) = Inr () \<and>
   (run_fault t = Some e \<longrightarrow>
      create_product_nodes t products w = (Inr (), print (Create_failed e) w)) \<and>
   fst (write_transaction env create_product_nodes products w) =
     (case raises (tx_faults env (length (flushed w))) of Some e' \<Rightarrow> Inl e' | None \<Rightarrow> Inr ()) \<and>
   (0 < B \<and> has_driver self \<and> session_fault env = None \<and> (\<forall>k. raises (tx_faults env k) = None)
    \<longrightarrow> (\<exists>w'. load_csv_to_neo4j env self rows B w = (Inr (), w') \<and>
              concat (new_flushes w w') = map to_dict (iterrows rows) \<and> last (stdout w') = All_loaded))"
proof (intro conjI impI)
  show "fst (create_product_nodes t products w) = Inr ()"
    by (rule create_product_nodes_returns)
  show "create_product_nodes t products w = (Inr (), print (Create_failed e) w)"
    if "run_fault t = Some e"
    using that by (simp add: create_product_nodes_def tx_run_query)
  show "fst (write_transaction env create_product_nodes products w) =
     (case raises (tx_faults env (length (flushed w))) of Some e' \<Rightarrow> Inl e' | None \<Rightarrow> Inr ())"
    by (rule write_transaction_result)
  show "\<exists>w'. load_csv_to_neo4j env self rows B w = (Inr (), w') \<and>
              concat (new_flushes w w') = map to_dict (iterrows rows) \<and> last (stdout w') = All_loaded"
    if h: "0 < B \<and> has_driver self \<and> session_fault env = None \<and>
        (\<forall>k. raises (tx_faults env k) = None)"
  proof -
    from h have a: "0 < B" "has_driver self" "session_fault env = None"
      "\<forall>k. raises (tx_faults env k) = None" by blast+
    from load_csv_to_neo4j_accepted [OF a, of rows w] show ?thesis by blast
  qed
qed

theorem run_failure_is_swallowed_witness:
  "run_fault (tx_faults run_fails_second 1) = Some (OtherException ''unsupported value'') \<and>
   create_product_nodes (tx_faults run_fails_second 1) [to_dict (example_row 1)] world0 =
     (Inr (), print (Create_failed (OtherException ''unsupported value'')) world0) \<and>
   (0::int) < 1 \<and> has_driver example_loader \<and> session_fault run_fails_second = None \<and>
   (\<forall>k. raises (tx_faults run_fails_second k) = None) \<and>
   (\<exists>w'. load_csv_to_neo4j run_fails_second example_loader
            [example_row 0, example_row 1, example_row 2] 1 world0 = (Inr (), w') \<and>
         concat (new_flushes world0 w') =
           [to_dict (example_row 0), to_dict (example_row 1), to_dict (example_row 2)] \<and>
         last (stdout w') = All_loaded)"
proof -
  let ?t = "tx_faults run_fails_second 1"
  let ?e = "OtherException ''unsupported value''"
  have f: "run_fault ?t = Some ?e"
    by (simp add: run_fails_second_def example_env_def no_fault_def)
  have h1: "(0::int) < 1" by simp
  have h2: "has_driver example_loader" by (simp add: example_loader_def)
  have h3: "session_fault run_fails_second = None"
    by (simp add: run_fails_second_def example_env_def)
  have h4: "\<forall>k. raises (tx_faults run_fails_second k) = None"
    by (simp add: run_fails_second_def example_env_def raises_def no_fault_def)
  note T = run_failure_is_swallowed [of ?t "[to_dict (example_row 1)]" world0 ?e
      run_fails_second 1 example_loader "[example_row 0, example_row 1, example_row 2]"]
  from T f have c: "create_product_nodes ?t [to_dict (example_row 1)] world0 =
     (Inr (), print (Create_failed ?e) world0)" by blast
  from T h1 h2 h3 h4 have l: "\<exists>w'. load_csv_to_neo4j run_fails_second example_loader
            [example_row 0, example_row 1, example_row 2] 1 world0 = (Inr (), w') \<and>
         concat (new_flushes world0 w') =
           map to_dict (iterrows [example_row 0, example_row 1, example_row 2]) \<and>
         last (stdout w') = All_loaded" by blast
  then have l': "\<exists>w'. load_csv_to_neo4j run_fails_second example_loader
            [example_row 0, example_row 1, example_row 2] 1 world0 = (Inr (), w') \<and>
         concat (new_flushes world0 w') =
           [to_dict (example_row 0), to_dict (example_row 1), to_dict (example_row 2)] \<and>
         last (stdout w') = All_loaded" by simp
  show ?thesis using f c h1 h2 h3 h4 l' by blast
qed

subsection \<open>The accumulator is bounded\<close>

text \<open>
  Claim C7. Let the loop have consumed the rows \<open>pre\<close> of \<open>pre @ row # post\<close> and stand
  at the head of the next iteration with accumulator \<open>acc\<close> (the full run continues from
  exactly this state). Then for a positive batch size \<open>B\<close>, whatever the store does:
  \<open>acc\<close> holds fewer than \<open>B\<close> records; after \<open>row\<close> is appended it holds at most \<open>B\<close>;
  and when it then holds \<open>B\<close> it is flushed at once and, the flush returning, the next
  iteration starts from the empty accumulator.
\<close>

theorem accumulator_bounded:
  assumes "0 < B" and "batch_loop env B pre [] w = (Inr acc, w')"
  shows "batch_loop env B (pre @ row # post) [] w = batch_loop env B (row # post) acc w' \<and>
         int (length acc) < B \<and> int (length (acc @ [to_dict row])) \<le> B \<and>
         (int (length (acc @ [to_dict row])) = B \<longrightarrow>
            batch_loop env B (row # post) acc w' =
              (case write_transaction env create_product_nodes (acc @ [to_dict row]) w' of
                 (Inl e, w'') \<Rightarrow> (Inl e, w'')
               | (Inr u, w'') \<Rightarrow> batch_loop env B post [] w''))"
proof -
  from assms(1) have "int (length ([]::'a batch)) < B" by simp
  from batch_loop_acc_bound [OF assms(1) this assms(2)] have b: "int (length acc) < B" .
  have "batch_loop env B (pre @ row # post) [] w = batch_loop env B (row # post) acc w'"
    using assms(2) by (simp only: batch_loop_append prod.case sum.case)
  moreover have "int (length (acc @ [to_dict row])) \<le> B" using b by simp
  moreover have "int (length (acc @ [to_dict row])) = B \<longrightarrow>
            batch_loop env B (row # post) acc w' =
              (case write_transaction env create_product_nodes (acc @ [to_dict row]) w' of
                 (Inl e, w'') \<Rightarrow> (Inl e, w'')
               | (Inr u, w'') \<Rightarrow> batch_loop env B post [] w'')"
    by simp
  ultimately show ?thesis using b by blast
qed

theorem accumulator_bounded_witness:
  "(0::int) < 2 \<and>
   batch_loop example_env 2 [example_row 0, example_row 1, example_row 2] [] world0 =
     (Inr [to_dict (example_row 2)],
      world0\<lparr>flushed := [[to_dict (example_row 0), to_dict (example_row 1)]],
             nodes := [mk_node (to_dict (example_row 0)), mk_node (to_dict (example_row 1))]\<rparr>) \<and>
   int (length [to_dict (example_row 2)]) < 2 \<and>
   int (length ([to_dict (example_row 2)] @ [to_dict (example_row 3)])) = 2 \<and>
   batch_loop example_env 2 [example_row 0, example_row 1, example_row 2, example_row 3] [] world0 =
     (Inr [],
      world0\<lparr>flushed := [[to_dict (example_row 0), to_dict (example_row 1)],
                          [to_dict (example_row 2), to_dict (example_row 3)]],
             nodes := [mk_node (to_dict (example_row 0)), mk_node (to_dict (example_row 1)),
                       mk_node (to_dict (example_row 2)), mk_node (to_dict (example_row 3))]\<rparr>)"
proof -
  let ?w1 = "world0\<lparr>flushed := [[to_dict (example_row 0), to_dict (example_row 1)]],
             nodes := [mk_node (to_dict (example_row 0)), mk_node (to_dict (example_row 1))]\<rparr> :: cell world"
  have h1: "(0::int) < 2" by simp
  have h2: "batch_loop example_env 2 [example_row 0, example_row 1, example_row 2] [] world0 =
     (Inr [to_dict (example_row 2)], ?w1)"
    by (simp add: loader_eval example_env_def world0_def)
  from accumulator_bounded [OF h1 h2, of "example_row 3" "[]"]
  have a: "batch_loop example_env 2 ([example_row 0, example_row 1, example_row 2] @ [example_row 3])
             [] world0 = batch_loop example_env 2 [example_row 3] [to_dict (example_row 2)] ?w1"
    and b: "int (length [to_dict (example_row 2)]) < 2"
    by blast+
  have "batch_loop example_env 2 [example_row 3] [to_dict (example_row 2)] ?w1 =
     (Inr [],
      world0\<lparr>flushed := [[to_dict (example_row 0), to_dict (example_row 1)],
                          [to_dict (example_row 2), to_dict (example_row 3)]],
             nodes := [mk_node (to_dict (example_row 0)), mk_node (to_dict (example_row 1)),
                       mk_node (to_dict (example_row 2)), mk_node (to_dict (example_row 3))]\<rparr>)"
    by (simp add: loader_eval example_env_def world0_def)
  with a have c: "batch_loop example_env 2
       [example_row 0, example_row 1, example_row 2, example_row 3] [] world0 =
     (Inr [],
      world0\<lparr>flushed := [[to_dict (example_row 0), to_dict (example_row 1)],
                          [to_dict (example_row 2), to_dict (example_row 3)]],
             nodes := [mk_node (to_dict (example_row 0)), mk_node (to_dict (example_row 1)),
                       mk_node (to_dict (example_row 2)), mk_node (to_dict (example_row 3))]\<rparr>)"
    by simp
  have d: "int (length ([to_dict (example_row 2)] @ [to_dict (example_row 3)])) = 2" by simp
  show ?thesis using h1 h2 b c d by blast
qed

subsection \<open>The run as a whole\<close>

lemma load_data_returns: "\<exists>d. fst (load_data env self w) = Inr d"
  by (simp add: load_data_def split: option.split sum.split)

lemma load_data_frame:
  "flushed (snd (load_data env self w)) = flushed w"
  "nodes (snd (load_data env self w)) = nodes w"
  "sessions_opened (snd (load_data env self w)) = sessions_opened w"
  "sessions_closed (snd (load_data env self w)) = sessions_closed w"
  "driver_close_calls (snd (load_data env self w)) = driver_close_calls w"
  "filter is_close_message (stdout (snd (load_data env self w))) = filter is_close_message (stdout w)"
proof -
  have m: "\<not> is_close_message (load_data_handler e)" for e by (cases e) simp_all
  show "flushed (snd (load_data env self w)) = flushed w"
    "nodes (snd (load_data env self w)) = nodes w"
    "sessions_opened (snd (load_data env self w)) = sessions_opened w"
    "sessions_closed (snd (load_data env self w)) = sessions_closed w"
    "driver_close_calls (snd (load_data env self w)) = driver_close_calls w"
    "filter is_close_message (stdout (snd (load_data env self w))) = filter is_close_message (stdout w)"
    by (simp_all add: load_data_def print_def m split: option.split sum.split)
qed

lemma run_any:
  "fst (run env self w) = Inr () \<and>
   sessions_opened (snd (run env self w)) + sessions_closed w =
     sessions_closed (snd (run env self w)) + sessions_opened w \<and>
   sessions_opened (snd (run env self w)) \<le> Suc (sessions_opened w) \<and>
   driver_close_calls (snd (run env self w)) = driver_close_calls w \<and>
   filter is_close_message (stdout (snd (run env self w))) = filter is_close_message (stdout w)"
proof -
  obtain res w1 where ld: "load_data env self w = (res, w1)" by (cases "load_data env self w")
  then have s: "snd (load_data env self w) = w1" and f: "fst (load_data env self w) = res" by simp_all
  from load_data_returns [of env self w] f obtain d where res: "res = Inr d" by auto
  have fr: "sessions_opened w1 = sessions_opened w" "sessions_closed w1 = sessions_closed w"
    "driver_close_calls w1 = driver_close_calls w"
    "filter is_close_message (stdout w1) = filter is_close_message (stdout w)"
    using load_data_frame [of env self w] s by simp_all
  show ?thesis
  proof (cases d)
    case None
    then have "run env self w = (Inr (), w1)" using ld res by (simp add: run_def)
    then show ?thesis using fr by simp
  next
    case (Some data)
    let ?l = "load_csv_to_neo4j env self data default_batch_size w1"
    from load_csv_to_neo4j_any [of env self data default_batch_size w1]
    have L: "fst ?l = Inr ()"
      "sessions_opened (snd ?l) + sessions_closed w1 = sessions_closed (snd ?l) + sessions_opened w1"
      "sessions_opened (snd ?l) \<le> Suc (sessions_opened w1)"
      "driver_close_calls (snd ?l) = driver_close_calls w1"
      "filter is_close_message (stdout (snd ?l)) = filter is_close_message (stdout w1)"
      by blast+
    from L(1) obtain w2 where l: "?l = (Inr (), w2)" by (cases ?l) auto
    then have s2: "snd ?l = w2" by simp
    have "run env self w = (Inr (), w2)"
      using ld res Some l by (simp add: run_def)
    then show ?thesis using L(2-5) fr unfolding s2 by simp
  qed
qed

text \<open>
  Claim C5. When \<open>pd.read_csv\<close> raises (the file is missing or cannot be parsed),
  \<open>load_data\<close> prints the matching line and returns \<open>None\<close> to \<open>run\<close>, and \<open>run\<close>
  ends there: no session is opened, no \<open>write_transaction\<close> call is made and no node
  is created.
\<close>

theorem unreadable_source_loads_nothing:
  assumes "FILE_PATH self = Some path" and "read_csv env path = Inl e"
  shows "load_data env self w = (Inr None, print (load_data_handler e) w) \<and>
         run env self w = (Inr (), print (load_data_handler e) w) \<and>
         new_flushes w (snd (run env self w)) = [] \<and>
         nodes (snd (run env self w)) = nodes w \<and>
         sessions_opened (snd (run env self w)) = sessions_opened w \<and>
         stdout (snd (run env self w)) = stdout w @ [load_data_handler e]"
proof -
  have l: "load_data env self w = (Inr None, print (load_data_handler e) w)"
    using assms by (simp add: load_data_def)
  then have r: "run env self w = (Inr (), print (load_data_handler e) w)"
    by (simp add: run_def)
  show ?thesis using l unfolding r by (simp add: print_def new_flushes_def)
qed

theorem unreadable_source_loads_nothing_witness:
  "FILE_PATH example_loader = Some ''products.csv'' \<and>
   read_csv missing_file_env ''products.csv'' = Inl (FileNotFoundError ''No such file or directory'') \<and>
   load_data missing_file_env example_loader world0 = (Inr None, print File_not_found world0) \<and>
   run missing_file_env example_loader world0 = (Inr (), print File_not_found world0) \<and>
   new_flushes world0 (snd (run missing_file_env example_loader world0)) = [] \<and>
   nodes (snd (run missing_file_env example_loader world0)) = [] \<and>
   stdout (snd (run missing_file_env example_loader world0)) = [File_not_found]"
proof -
  have h1: "FILE_PATH example_loader = Some ''products.csv''" by (simp add: example_loader_def)
  have h2: "read_csv missing_file_env ''products.csv'' =
      Inl (FileNotFoundError ''No such file or directory'')"
    by (simp add: missing_file_env_def example_env_def)
  note T = unreadable_source_loads_nothing [OF h1 h2, of world0]
  have hd: "load_data_handler (FileNotFoundError ''No such file or directory'') = File_not_found"
    by simp
  from T have a: "load_data missing_file_env example_loader world0 =
      (Inr None, print File_not_found world0)"
    and b: "run missing_file_env example_loader world0 = (Inr (), print File_not_found world0)"
    and c: "new_flushes world0 (snd (run missing_file_env example_loader world0)) = []"
    unfolding hd by blast+
  from T have "nodes (snd (run missing_file_env example_loader world0)) = nodes (world0 :: cell world)"
    and "stdout (snd (run missing_file_env example_loader world0)) =
          stdout (world0 :: cell world) @ [File_not_found]"
    unfolding hd by blast+
  then have d: "nodes (snd (run missing_file_env example_loader world0)) = []"
    and e: "stdout (snd (run missing_file_env example_loader world0)) = [File_not_found]"
    by (simp_all add: world0_def)
  show ?thesis using h1 h2 a b c d e by blast
qed

text \<open>
  Claim C6. With a source of zero data rows and a store that works, the whole program
  makes no \<open>write_transaction\<close> call and creates no node; it returns normally, having
  printed the four success lines, with its one session closed and \<open>driver.close\<close>
  called once.
\<close>

theorem empty_source_run:
  assumes "read_config env = Inr (uri, username, password, path)" and "driver_fault env = None"
    and "read_csv env path = Inr []" and "session_fault env = None" and "close_fault env = None"
  shows "main env world0 =
           (Inr (), \<lparr>stdout = [Driver_initialized, Csv_loaded, All_loaded, Closed_ok],
                     sessions_opened = 1, sessions_closed = 1, flushed = [], pending = [],
                     nodes = [], driver_close_calls = 1\<rparr>)"
  using assms
  by (simp add: main_def init_def run_def load_data_def load_csv_to_neo4j_def session_body_def
      close_def close_session_def print_def world0_def)

theorem empty_source_run_witness:
  "read_config example_env = Inr (''bolt://localhost:7687'', ''neo4j'', ''secret'', ''products.csv'') \<and>
   driver_fault example_env = None \<and> read_csv example_env ''products.csv'' = Inr [] \<and>
   session_fault example_env = None \<and> close_fault example_env = None \<and>
   main example_env world0 =
           (Inr (), \<lparr>stdout = [Driver_initialized, Csv_loaded, All_loaded, Closed_ok],
                     sessions_opened = 1, sessions_closed = 1, flushed = [], pending = [],
                     nodes = [], driver_close_calls = 1\<rparr>)"
proof -
  have h1: "read_config example_env =
      Inr (''bolt://localhost:7687'', ''neo4j'', ''secret'', ''products.csv'')"
    and h2: "driver_fault example_env = None"
    and h3: "read_csv example_env ''products.csv'' = Inr []"
    and h4: "session_fault example_env = None"
    and h5: "close_fault example_env = None"
    by (simp_all add: example_env_def)
  show ?thesis using empty_source_run [OF h1 h2 h3 h4 h5] h1 h2 h3 h4 h5 by blast
qed

text \<open>
  Claim C9. Once the configuration has been read, whatever the driver, the source file
  and the store do, the program returns normally and \<open>close\<close> runs exactly once, as
  its last step: exactly one of the lines of \<open>close\<close> is printed, and it is the last
  line. Every session opened has been closed, at most one was opened, and
  \<open>driver.close\<close> has been called exactly once when a driver exists (when
  \<open>GraphDatabase.driver\<close> raised there is none: \<open>close\<close> then prints its failure line).
\<close>

theorem close_attempted_once:
  assumes "read_config env = Inr cfg"
  shows "\<exists>w'. main env world0 = (Inr (), w') \<and>
           length (filter is_close_message (stdout w')) = 1 \<and>
           is_close_message (last (stdout w')) \<and>
           sessions_closed w' = sessions_opened w' \<and> sessions_opened w' \<le> 1 \<and>
           driver_close_calls w' = (if driver_fault env = None then 1 else 0)"
proof -
  obtain uri username password path where cfg: "cfg = (uri, username, password, path)"
    by (cases cfg) auto
  obtain ldr w1 where i: "init env uri username password path world0 = (ldr, w1)"
    by (cases "init env uri username password path world0")
  have w1: "sessions_opened w1 = 0" "sessions_closed w1 = 0" "driver_close_calls w1 = 0"
    "filter is_close_message (stdout w1) = []" "has_driver ldr = (driver_fault env = None)"
    using i by (auto simp: init_def world0_def print_def split: option.splits)
  let ?r = "run env ldr w1"
  from run_any [of env ldr w1] have R: "fst ?r = Inr ()"
    "sessions_opened (snd ?r) + sessions_closed w1 = sessions_closed (snd ?r) + sessions_opened w1"
    "sessions_opened (snd ?r) \<le> Suc (sessions_opened w1)"
    "driver_close_calls (snd ?r) = driver_close_calls w1"
    "filter is_close_message (stdout (snd ?r)) = filter is_close_message (stdout w1)"
    by blast+
  obtain w2 where r: "?r = (Inr (), w2)" using R(1) by (cases ?r) auto
  then have s: "snd ?r = w2" by simp
  have w2: "sessions_closed w2 = sessions_opened w2" "sessions_opened w2 \<le> 1"
    "driver_close_calls w2 = 0" "filter is_close_message (stdout w2) = []"
    using R(2-5) w1 unfolding s by simp_all
  have m: "main env world0 = close env ldr w2"
    using assms cfg i r by (simp add: main_def)
  obtain w3 where c: "close env ldr w2 = (Inr (), w3)"
    by (cases "close env ldr w2") (auto simp: close_def Let_def split: if_splits option.splits)
  have "length (filter is_close_message (stdout w3)) = 1 \<and>
           is_close_message (last (stdout w3)) \<and>
           sessions_closed w3 = sessions_opened w3 \<and> sessions_opened w3 \<le> 1 \<and>
           driver_close_calls w3 = (if driver_fault env = None then 1 else 0)"
    using c w2 w1(5)
    by (auto simp: close_def Let_def print_def split: if_splits option.splits)
  then show ?thesis using m c by simp
qed

theorem close_attempted_once_witness:
  "read_config failing_env =
     Inr (''bolt://localhost:7687'', ''neo4j'', ''secret'', ''products.csv'') \<and>
   (\<exists>w'. main failing_env world0 = (Inr (), w') \<and>
         stdout w' = [Driver_initialized, Csv_loaded,
                      Load_failed (OtherException ''connection lost''),
                      Close_failed (OtherException ''already closed'')] \<and>
         length (filter is_close_message (stdout w')) = 1 \<and>
         is_close_message (last (stdout w')) \<and>
         sessions_closed w' = sessions_opened w' \<and> sessions_opened w' \<le> 1 \<and>
         driver_close_calls w' = 1)"
proof -
  have h: "read_config failing_env =
     Inr (''bolt://localhost:7687'', ''neo4j'', ''secret'', ''products.csv'')"
    by (simp add: failing_env_def example_env_def)
  have d: "driver_fault failing_env = None"
    by (simp add: failing_env_def example_env_def)
  have ev: "stdout (snd (main failing_env world0)) =
      [Driver_initialized, Csv_loaded, Load_failed (OtherException ''connection lost''),
       Close_failed (OtherException ''already closed'')]"
    by (simp add: main_def init_def run_def load_data_def loader_eval close_def
        default_batch_size_def failing_env_def example_env_def world0_def)
  from close_attempted_once [OF h] d obtain w' where
    L: "main failing_env world0 = (Inr (), w')"
       "length (filter is_close_message (stdout w')) = 1"
       "is_close_message (last (stdout w'))"
       "sessions_closed w' = sessions_opened w'" "sessions_opened w' \<le> 1"
       "driver_close_calls w' = 1"
    by auto
  from ev L(1) have "stdout w' =
      [Driver_initialized, Csv_loaded, Load_failed (OtherException ''connection lost''),
       Close_failed (OtherException ''already closed'')]" by simp
  then show ?thesis using h L by blast
qed

subsection \<open>A transaction that fails\<close>

lemma no_fault_fields:
  "tx_faults env k = no_fault \<Longrightarrow> raises (tx_faults env k) = None"
  "tx_faults env k = no_fault \<Longrightarrow> run_fault (tx_faults env k) = None"
  by (simp_all add: raises_def no_fault_def)

lemma take_add_append: "length b = n \<Longrightarrow> take (n + k) (b @ X) = b @ take k X"
  by simp

lemma batch_loop_raises:
  assumes n: "0 < n"
  shows "length acc < n \<Longrightarrow> pending w = [] \<Longrightarrow>
     \<forall>i<j. tx_faults env (length (flushed w) + i) = no_fault \<Longrightarrow>
     raises (tx_faults env (length (flushed w) + j)) = Some e \<Longrightarrow>
     Suc j * n \<le> length acc + length rows \<Longrightarrow>
     \<exists>w' F. batch_loop env (int n) rows acc w = (Inl e, w') \<and> flushed w' = flushed w @ F \<and>
        length F = Suc j \<and> concat F = take (Suc j * n) (acc @ map to_dict rows) \<and>
        nodes w' = nodes w @ map mk_node (take (j * n) (acc @ map to_dict rows))"
proof (induction rows arbitrary: acc w j)
  case Nil
  have "n \<le> Suc j * n" by simp
  with Nil.prems(1,5) show ?case by simp
next
  case (Cons row rows)
  let ?b = "acc @ [to_dict row]"
  let ?X = "map to_dict rows"
  have X: "acc @ map to_dict (row # rows) = ?b @ ?X" by simp
  show ?case
  proof (cases "n \<le> Suc (length acc)")
    case True
    with Cons.prems(1) have len: "length ?b = n" by simp
    let ?r = "write_transaction env create_product_nodes ?b w"
    obtain res w1 where r: "?r = (res, w1)" by (cases ?r)
    then have s: "snd ?r = w1" and f: "fst ?r = res" by simp_all
    have f1: "flushed w1 = flushed w @ [?b]"
      using write_transaction_flushed [of env ?b w] s by simp
    have tk: "take (n + k) (?b @ ?X) = ?b @ take k ?X" for k
      using len by (rule take_add_append)
    show ?thesis
    proof (cases j)
      case 0
      with Cons.prems(4) have e: "raises (tx_faults env (length (flushed w))) = Some e" by simp
      then have "res = Inl e" using write_transaction_result [of env ?b w] f by simp
      then have "batch_loop env (int n) (row # rows) acc w = (Inl e, w1)"
        using batch_loop_flush [OF True, of env row rows w] r by simp
      moreover have "nodes w1 = nodes w"
        using write_transaction_nodes_raised [OF e, of ?b] s by simp
      moreover have "concat [?b] = take (Suc j * n) (?b @ ?X)"
        using tk [of 0] 0 by simp
      moreover have "length [?b] = Suc j" using 0 by simp
      moreover have "nodes w @ map mk_node (take (j * n) (?b @ ?X)) = nodes w" using 0 by simp
      ultimately show ?thesis using f1 unfolding X by metis
    next
      case (Suc j')
      have t0: "tx_faults env (length (flushed w)) = no_fault"
        using Cons.prems(3) Suc by (metis add.right_neutral zero_less_Suc)
      then have "res = Inr ()"
        using write_transaction_result [of env ?b w] f by (simp add: raises_def no_fault_def)
      then have eq: "batch_loop env (int n) (row # rows) acc w = batch_loop env (int n) rows [] w1"
        using batch_loop_flush [OF True, of env row rows w] r by simp
      have n1: "nodes w1 = nodes w @ map mk_node ?b"
        using write_transaction_nodes_ok [of env w ?b] t0 Cons.prems(2) s
        by (simp add: raises_def no_fault_def)
      have p1: "pending w1 = []"
        using write_transaction_pending [OF Cons.prems(2), of env ?b] s by simp
      have ok1: "\<forall>i<j'. tx_faults env (length (flushed w1) + i) = no_fault"
      proof (intro allI impI)
        fix i assume "i < j'"
        then have "Suc i < j" using Suc by simp
        with Cons.prems(3) have "tx_faults env (length (flushed w) + Suc i) = no_fault" by blast
        then show "tx_faults env (length (flushed w1) + i) = no_fault" using f1 by simp
      qed
      have e1: "raises (tx_faults env (length (flushed w1) + j')) = Some e"
        using Cons.prems(4) Suc f1 by simp
      have "Suc j * n \<le> n + length rows" using Cons.prems(5) len by simp
      then have sz: "Suc j' * n \<le> length ([]::'a batch) + length rows" using Suc by simp
      from n have l0: "length ([]::'a batch) < n" by simp
      from Cons.IH [OF l0 p1 ok1 e1 sz] obtain w' F where
        IH: "batch_loop env (int n) rows [] w1 = (Inl e, w')" "flushed w' = flushed w1 @ F"
          "length F = Suc j'" "concat F = take (Suc j' * n) ([] @ ?X)"
          "nodes w' = nodes w1 @ map mk_node (take (j' * n) ([] @ ?X))"
        by blast
      have "flushed w' = flushed w @ (?b # F)" using IH(2) f1 by simp
      moreover have "length (?b # F) = Suc j" using IH(3) Suc by simp
      moreover have "concat (?b # F) = take (Suc j * n) (?b @ ?X)"
      proof -
        have "Suc j * n = n + Suc j' * n" using Suc by simp
        then show ?thesis using IH(4) tk [of "Suc j' * n"] by simp
      qed
      moreover have "nodes w' = nodes w @ map mk_node (take (j * n) (?b @ ?X))"
      proof -
        have "j * n = n + j' * n" using Suc by simp
        then have "take (j * n) (?b @ ?X) = ?b @ take (j' * n) ?X" using tk [of "j' * n"] by simp
        then show ?thesis using IH(5) n1 by simp
      qed
      ultimately show ?thesis using IH(1) unfolding eq X by blast
    qed
  next
    case False
    then have lt: "Suc (length acc) < n" by simp
    then have l': "length ?b < n" by simp
    have sz: "Suc j * n \<le> length ?b + length rows" using Cons.prems(5) by simp
    from Cons.IH [OF l' Cons.prems(2,3,4) sz] show ?thesis
      unfolding batch_loop_keep [OF lt] X .
  qed
qed

lemma session_body_raises:
  assumes n: "0 < n" and yielded: "rows = iterrows data" and p: "pending w = []"
    and ok: "\<forall>i<j. tx_faults env (length (flushed w) + i) = no_fault"
    and e: "raises (tx_faults env (length (flushed w) + j)) = Some e"
    and more: "j * n < length rows"
  shows "\<exists>w' F. session_body env data (int n) w = (Inl e, w') \<and> flushed w' = flushed w @ F \<and>
        length F = Suc j \<and> concat F = take (Suc j * n) (map to_dict rows) \<and>
        nodes w' = nodes w @ map mk_node (take (j * n) (map to_dict rows))"
proof (cases "Suc j * n \<le> length rows")
  case True
  from n have l0: "length ([]::cell batch) < n" by simp
  have sz: "Suc j * n \<le> length ([]::cell batch) + length rows" using True by simp
  from batch_loop_raises [OF n l0 p ok e sz] obtain w' F where
    L: "batch_loop env (int n) rows [] w = (Inl e, w')" "flushed w' = flushed w @ F"
      "length F = Suc j" "concat F = take (Suc j * n) ([] @ map to_dict rows)"
      "nodes w' = nodes w @ map mk_node (take (j * n) ([] @ map to_dict rows))"
    by blast
  have "session_body env data (int n) w = (Inl e, w')"
    using L(1) by (simp add: session_body_def yielded [symmetric])
  then show ?thesis using L(2-5) by auto
next
  case False
  let ?R = "length rows"
  let ?X = "map to_dict rows"
  from False have hi: "?R < j * n + n" by simp
  have "n * j \<le> ?R" using more by (simp add: mult.commute)
  moreover have "?R < n * Suc j" using hi by (simp add: mult.commute)
  ultimately have dv: "?R div n = j" by (rule div_nat_eqI)
  have ok1: "\<forall>i < (length ([]::cell batch) + ?R) div n. raises (tx_faults env (length (flushed w) + i)) = None"
    using ok dv by (simp add: raises_def no_fault_def)
  have rf1: "\<forall>i < (length ([]::cell batch) + ?R) div n. run_fault (tx_faults env (length (flushed w) + i)) = None"
    using ok dv by (simp add: raises_def no_fault_def)
  from n have l0: "length ([]::cell batch) < n" by simp
  from batch_loop_ok [OF n l0 ok1] obtain acc w1 F where
    L: "batch_loop env (int n) rows [] w = (Inr acc, w1)" "flushed w1 = flushed w @ F"
      "concat F @ acc = [] @ ?X" "\<forall>b\<in>set F. length b = n" "length acc < n"
      "length F = (length ([]::cell batch) + ?R) div n"
      "pending w = [] \<and>
         (\<forall>i < (length ([]::cell batch) + ?R) div n. run_fault (tx_faults env (length (flushed w) + i)) = None)
         \<longrightarrow> nodes w1 = nodes w @ map mk_node (concat F) \<and> pending w1 = [] \<and> stdout w1 = stdout w"
    by blast
  from L(7) p rf1 have n1: "nodes w1 = nodes w @ map mk_node (concat F)" by blast
  from L(3) have cat: "concat F @ acc = ?X" by simp
  have lF: "length F = j" using L(6) dv by simp
  have lc: "length (concat F) = j * n" using length_concat_const [OF L(4)] lF by simp
  have "length ?X = length (concat F) + length acc" using cat by (metis length_append)
  then have la: "length acc = ?R - j * n" using lc by simp
  then have ne: "acc \<noteq> []" using more by auto
  have cF: "concat F = take (j * n) ?X"
    using cat lc by (metis append_eq_conv_conj)
  let ?r = "write_transaction env create_product_nodes acc w1"
  obtain res w2 where r: "?r = (res, w2)" by (cases ?r)
  then have s: "snd ?r = w2" and f: "fst ?r = res" by simp_all
  have idx: "length (flushed w1) = length (flushed w) + j" using L(2) lF by simp
  have e1: "raises (tx_faults env (length (flushed w1))) = Some e" using e idx by simp
  then have res: "res = Inl e" using write_transaction_result [of env acc w1] f by simp
  have "session_body env data (int n) w = (Inl e, w2)"
    using L(1) ne r res by (simp add: session_body_def yielded [symmetric])
  moreover have "flushed w2 = flushed w @ (F @ [acc])"
    using write_transaction_flushed [of env acc w1] s L(2) by simp
  moreover have "length (F @ [acc]) = Suc j" using lF by simp
  moreover have "concat (F @ [acc]) = take (Suc j * n) ?X"
    using cat hi by simp
  moreover have "nodes w2 = nodes w @ map mk_node (take (j * n) ?X)"
    using write_transaction_nodes_raised [OF e1, of acc] s n1 cF by simp
  ultimately show ?thesis by blast
qed

subsection \<open>A failed write in the middle of the run\<close>

text \<open>
  Claim C2, as stated, fails on the code: a write that fails inside \<open>tx.run\<close> is caught
  by \<open>create_product_nodes\<close>, so the run goes on. With three batches and \<open>tx.run\<close>
  raising on the second, the third batch is flushed and committed, and the method prints
  "All data have been loaded" and no failure of the load.
\<close>

theorem run_continues_after_failed_write:
  "run_fault (tx_faults run_fails_second 1) = Some (OtherException ''unsupported value'') \<and>
   load_csv_to_neo4j run_fails_second example_loader
       [example_row 0, example_row 1, example_row 2] 1 world0 =
     (Inr (),
      \<lparr>stdout = [Create_failed (OtherException ''unsupported value''), All_loaded],
       sessions_opened = 1, sessions_closed = 1,
       flushed = [[to_dict (example_row 0)], [to_dict (example_row 1)], [to_dict (example_row 2)]],
       pending = [],
       nodes = [mk_node (to_dict (example_row 0)), mk_node (to_dict (example_row 2))],
       driver_close_calls = 0\<rparr>)"
  by (simp add: loader_eval run_fails_second_def example_env_def example_loader_def world0_def)

text \<open>
  Claim C2, amended. If the call of \<open>write_transaction\<close> for batch number \<open>j + 1\<close>
  itself raises \<open>e\<close> (the transaction cannot be opened, or its commit fails) after \<open>j\<close>
  transactions without fault, then the run makes exactly \<open>j + 1\<close> calls, whose payloads
  are the first \<open>j + 1\<close> batches, each once: the failing batch is not retried and no
  later batch is attempted. The nodes of the first \<open>j\<close> batches stay committed, none
  of the failing batch exists, the session is closed, and the last line printed is
  "Failed to load data to Neo4j" with \<open>e\<close>.
\<close>

theorem flush_failure_stops_the_run:
  assumes "0 < B" and "has_driver self" and "session_fault env = None" and "pending w = []"
    and "\<forall>i<j. tx_faults env (length (flushed w) + i) = no_fault"
    and "raises (tx_faults env (length (flushed w) + j)) = Some e"
    and "j * nat B < length rows"
  shows "\<exists>w'. load_csv_to_neo4j env self rows B w = (Inr (), w') \<and>
           length (new_flushes w w') = Suc j \<and>
           concat (new_flushes w w') = take (Suc j * nat B) (map to_dict (iterrows rows)) \<and>
           nodes w' = nodes w @ map mk_node (take (j * nat B) (map to_dict (iterrows rows))) \<and>
           last (stdout w') = Load_failed e \<and>
           sessions_closed w' = Suc (sessions_closed w)"
proof -
  let ?n = "nat B"
  let ?w0 = "w\<lparr>sessions_opened := Suc (sessions_opened w)\<rparr>"
  from assms(1) have n: "0 < ?n" and B: "int ?n = B" by simp_all
  have p: "pending ?w0 = []" using assms(4) by simp
  have ok: "\<forall>i<j. tx_faults env (length (flushed ?w0) + i) = no_fault" using assms(5) by simp
  have e: "raises (tx_faults env (length (flushed ?w0) + j)) = Some e" using assms(6) by simp
  have more: "j * ?n < length (iterrows rows)" using assms(7) by simp
  from session_body_raises [OF n refl p ok e more] obtain w1 F where
    S: "session_body env rows (int ?n) ?w0 = (Inl e, w1)" "flushed w1 = flushed ?w0 @ F"
      "length F = Suc j" "concat F = take (Suc j * ?n) (map to_dict (iterrows rows))"
      "nodes w1 = nodes ?w0 @ map mk_node (take (j * ?n) (map to_dict (iterrows rows)))"
    by blast
  have "snd (session_body env rows (int ?n) ?w0) = w1" using S(1) by simp
  moreover from session_body_any [OF refl, of env rows "int ?n" ?w0]
  have "sessions_closed (snd (session_body env rows (int ?n) ?w0)) = sessions_closed ?w0"
    by blast
  ultimately have sc: "sessions_closed w1 = sessions_closed w" by simp
  let ?w' = "print (Load_failed e) (close_session w1)"
  have "load_csv_to_neo4j env self rows B w = (Inr (), ?w')"
    using assms(2,3) S(1) B by (simp add: load_csv_to_neo4j_def)
  moreover have "flushed ?w' = flushed w @ F"
    using S(2) by (simp add: print_def close_session_def)
  then have "new_flushes w ?w' = F" by (rule new_flushes_append)
  moreover have "nodes ?w' = nodes w @ map mk_node (take (j * ?n) (map to_dict (iterrows rows)))"
    using S(5) by (simp add: print_def close_session_def)
  moreover have "last (stdout ?w') = Load_failed e" by (simp add: print_def)
  moreover have "sessions_closed ?w' = Suc (sessions_closed w)"
    using sc by (simp add: print_def close_session_def)
  ultimately show ?thesis using S(3,4) by (intro exI [of _ ?w']) simp
qed

theorem flush_failure_stops_the_run_witness:
  "(0::int) < 1 \<and> has_driver example_loader \<and> session_fault commit_fails_second = None \<and>
   pending (world0 :: cell world) = [] \<and>
   tx_faults commit_fails_second (length (flushed (world0 :: cell world)) + 0) = no_fault \<and>
   raises (tx_faults commit_fails_second (length (flushed (world0 :: cell world)) + 1)) =
     Some (OtherException ''connection lost'') \<and>
   1 * nat 1 < length [example_row 0, example_row 1, example_row 2] \<and>
   (\<exists>w'. load_csv_to_neo4j commit_fails_second example_loader
            [example_row 0, example_row 1, example_row 2] 1 world0 = (Inr (), w') \<and>
         length (new_flushes world0 w') = 2 \<and>
         concat (new_flushes world0 w') = [to_dict (example_row 0), to_dict (example_row 1)] \<and>
         nodes w' = [mk_node (to_dict (example_row 0))] \<and>
         last (stdout w') = Load_failed (OtherException ''connection lost''))"
proof -
  have h1: "(0::int) < 1" by simp
  have h2: "has_driver example_loader" by (simp add: example_loader_def)
  have h3: "session_fault commit_fails_second = None"
    by (simp add: commit_fails_second_def example_env_def)
  have h4: "pending (world0 :: cell world) = []" by (simp add: world0_def)
  have h5: "\<forall>i<1. tx_faults commit_fails_second (length (flushed (world0 :: cell world)) + i) = no_fault"
    by (simp add: commit_fails_second_def example_env_def world0_def)
  have h6: "raises (tx_faults commit_fails_second (length (flushed (world0 :: cell world)) + 1)) =
     Some (OtherException ''connection lost'')"
    by (simp add: commit_fails_second_def example_env_def world0_def raises_def no_fault_def)
  have h7: "1 * nat 1 < length [example_row 0, example_row 1, example_row 2]" by simp
  from flush_failure_stops_the_run [OF h1 h2 h3 h4 h5 h6 h7] obtain w' where
    L: "load_csv_to_neo4j commit_fails_second example_loader
            [example_row 0, example_row 1, example_row 2] 1 world0 = (Inr (), w')"
       "length (new_flushes world0 w') = Suc 1"
       "concat (new_flushes world0 w') =
          take (Suc 1 * nat 1) (map to_dict (iterrows [example_row 0, example_row 1, example_row 2]))"
       "nodes w' = nodes (world0 :: cell world) @
          map mk_node (take (1 * nat 1) (map to_dict (iterrows [example_row 0, example_row 1, example_row 2])))"
       "last (stdout w') = Load_failed (OtherException ''connection lost'')"
    by blast
  have a: "length (new_flushes world0 w') = 2" using L(2) by simp
  have b: "concat (new_flushes world0 w') = [to_dict (example_row 0), to_dict (example_row 1)]"
    using L(3) by simp
  have c: "nodes w' = [mk_node (to_dict (example_row 0))]"
    using L(4) by (simp add: world0_def)
  have ex: "\<exists>w'. load_csv_to_neo4j commit_fails_second example_loader
            [example_row 0, example_row 1, example_row 2] 1 world0 = (Inr (), w') \<and>
         length (new_flushes world0 w') = 2 \<and>
         concat (new_flushes world0 w') = [to_dict (example_row 0), to_dict (example_row 1)] \<and>
         nodes w' = [mk_node (to_dict (example_row 0))] \<and>
         last (stdout w') = Load_failed (OtherException ''connection lost'')"
    using L(1) a b c L(5) by blast
  have h5': "tx_faults commit_fails_second (length (flushed (world0 :: cell world)) + 0) = no_fault"
    using h5 by blast
  show ?thesis using h1 h2 h3 h4 h5' h6 h7 ex by blast
qed

end
